theory Spec2Isabelle
  imports Complex_Main "HOL-Library.Word"
begin

unbundle bit_operations_syntax

section \<open>Common data: machine integers, errors\<close>

text \<open>
  Go's \<^verbatim>\<open>int64\<close> (and \<^verbatim>\<open>int\<close> on the 64-bit targets the program is built for) is a
  64-bit word read as two's complement: \<open>+\<close> wraps, \<open><s\<close> compares signed values.
\<close>

type_synonym int64 = "64 word"

text \<open>
  An error returned by the object-storage SDK. \<^verbatim>\<open>err.(awserr.Error)\<close> succeeds on
  \<open>AwsError code message\<close> and fails on every other error value.
\<close>

datatype backend_error = AwsError string string | PlainError string

datatype serializer_code = CodeMetaMismatch

text \<open>
  The Go \<^verbatim>\<open>error\<close> values the modelled functions return: the package-level sentinel
  errors of package \<^verbatim>\<open>fs\<close>, errors of the backend passed through, \<^verbatim>\<open>fmt.Errorf("...: %w", err)\<close>
  as \<open>Wrapped\<close>, \<^verbatim>\<open>serializer.NewError(code, msg, nil)\<close> as \<open>AppError\<close>, and a run-time
  panic as \<open>Panic\<close>. A \<^verbatim>\<open>nil\<close> error is \<open>None\<close> of \<open>error option\<close>.
\<close>

datatype error =
    ErrFileExisted
  | ErrArchiveSrcSizeTooBig
  | ErrEntityNotExist
  | ErrNotSupportedAction string
  | ErrFileSizeTooBig string
  | Backend backend_error
  | Wrapped string error
  | AppError serializer_code string
  | UrlParseError string
  | OtherError string
  | Panic string

section \<open>Decimal rendering of integers (\<^verbatim>\<open>%d\<close>, \<^verbatim>\<open>strconv.Itoa\<close>)\<close>

definition digit_char :: "nat \<Rightarrow> char" where
  "digit_char d = ''0123456789'' ! d"

function nat_digits :: "nat \<Rightarrow> string" where
  "nat_digits n = (if n < 10 then [digit_char n] else nat_digits (n div 10) @ [digit_char (n mod 10)])"
  by pat_completeness auto
termination
  by (relation "measure id") auto

declare nat_digits.simps [simp del]

definition itoa :: "int \<Rightarrow> string" where
  "itoa i = (if i < 0 then CHR ''-'' # nat_digits (nat (- i)) else nat_digits (nat i))"

section \<open>The KS3 driver\<close>

subsection \<open>The remote service\<close>

record MetaData =
  md_Size :: int64
  md_Etag :: string

text \<open>\<^verbatim>\<open>s3.HeadObjectOutput\<close>, the two fields \<^verbatim>\<open>Meta\<close> reads.\<close>

record HeadObjectOutput =
  ContentLength :: int64
  ETag :: string

text \<open>
  \<^verbatim>\<open>s3manager.UploadInput\<close> with the uploader's \<^verbatim>\<open>PartSize\<close> option; the body is the
  bytes the limited reader yields.
\<close>

record UploadInput =
  up_Bucket :: string
  up_Key :: string
  up_Body :: "8 word list"
  up_ContentType :: string
  up_PartSize :: int64

text \<open>One entry of \<^verbatim>\<open>DeleteObjectsOutput.Errors\<close>.\<close>

record DeleteError =
  de_Key :: string
  de_Code :: string
  de_Message :: string

datatype http_method = GET | PUT | POST

text \<open>\<^verbatim>\<open>s3.GeneratePresignedUrlInput\<close>; \<^verbatim>\<open>Parameters\<close> is the map literal in source order.\<close>

record GeneratePresignedUrlInput =
  ps_HTTPMethod :: http_method
  ps_Bucket :: string
  ps_Key :: string
  ps_Expires :: int64
  ps_Parameters :: "(string \<times> string) list"
  ps_ContentType :: "string option"
  ps_ResponseContentDisposition :: "string option"

record CreateMultipartUploadInput =
  cm_Bucket :: string
  cm_Key :: string
  cm_Expires :: int
  cm_ContentType :: string

record AbortMultipartUploadInput =
  ab_UploadID :: string
  ab_Bucket :: string
  ab_Key :: string

text \<open>
  The SDK client \<^verbatim>\<open>handler.svc\<close> (and the \<^verbatim>\<open>s3manager\<close> uploader built on it) is
  outside the repository. It is a parameter of the model: one function per operation
  the driver calls, over an arbitrary state \<open>'w\<close> of the outside world (the bucket, the
  network, the signer's clock), which every call may change. The wall clock read by
  \<^verbatim>\<open>time.Until\<close> is \<open>time_Now\<close>, in nanoseconds, a function of the same state.
\<close>

record 'w s3_api =
  HeadObjectWithContext :: "'w \<Rightarrow> string \<Rightarrow> string \<Rightarrow> (backend_error + HeadObjectOutput) \<times> 'w"
  UploadWithContext :: "'w \<Rightarrow> UploadInput \<Rightarrow> backend_error option \<times> 'w"
  DeleteObjectWithContext :: "'w \<Rightarrow> string \<Rightarrow> string \<Rightarrow> backend_error option \<times> 'w"
  DeleteObjects :: "'w \<Rightarrow> string \<Rightarrow> string list \<Rightarrow> (backend_error + DeleteError list) \<times> 'w"
  GeneratePresignedUrl :: "'w \<Rightarrow> GeneratePresignedUrlInput \<Rightarrow> (backend_error + string) \<times> 'w"
  CreateMultipartUploadWithContext :: "'w \<Rightarrow> CreateMultipartUploadInput \<Rightarrow> (backend_error + string) \<times> 'w"
  AbortMultipartUploadWithContext :: "'w \<Rightarrow> AbortMultipartUploadInput \<Rightarrow> backend_error option \<times> 'w"
  time_Now :: "'w \<Rightarrow> int"

text \<open>
  Every call of the service is recorded with its answer, in call order: what a test
  double of the SDK client would observe.
\<close>

datatype s3_exchange =
    CallHeadObject string string "backend_error + HeadObjectOutput"
  | CallUpload UploadInput "backend_error option"
  | CallDeleteObject string string "backend_error option"
  | CallDeleteObjects string "string list" "backend_error + DeleteError list"
  | CallPresign GeneratePresignedUrlInput "backend_error + string"
  | CallCreateMultipartUpload CreateMultipartUploadInput "backend_error + string"
  | CallAbortMultipartUpload AbortMultipartUploadInput "backend_error option"

record 'w world =
  outside :: 'w
  trace :: "s3_exchange list"

definition svc_HeadObject :: "'w s3_api \<Rightarrow> 'w world \<Rightarrow> string \<Rightarrow> string \<Rightarrow> (backend_error + HeadObjectOutput) \<times> 'w world" where
  "svc_HeadObject svc w bucket key =
     (case HeadObjectWithContext svc (outside w) bucket key of
        (r, s) \<Rightarrow> (r, \<lparr>outside = s, trace = trace w @ [CallHeadObject bucket key r]\<rparr>))"

definition svc_Upload :: "'w s3_api \<Rightarrow> 'w world \<Rightarrow> UploadInput \<Rightarrow> backend_error option \<times> 'w world" where
  "svc_Upload svc w inp =
     (case UploadWithContext svc (outside w) inp of
        (r, s) \<Rightarrow> (r, \<lparr>outside = s, trace = trace w @ [CallUpload inp r]\<rparr>))"

definition svc_DeleteObject :: "'w s3_api \<Rightarrow> 'w world \<Rightarrow> string \<Rightarrow> string \<Rightarrow> backend_error option \<times> 'w world" where
  "svc_DeleteObject svc w bucket key =
     (case DeleteObjectWithContext svc (outside w) bucket key of
        (r, s) \<Rightarrow> (r, \<lparr>outside = s, trace = trace w @ [CallDeleteObject bucket key r]\<rparr>))"

definition svc_DeleteObjects :: "'w s3_api \<Rightarrow> 'w world \<Rightarrow> string \<Rightarrow> string list \<Rightarrow> (backend_error + DeleteError list) \<times> 'w world" where
  "svc_DeleteObjects svc w bucket keys =
     (case DeleteObjects svc (outside w) bucket keys of
        (r, s) \<Rightarrow> (r, \<lparr>outside = s, trace = trace w @ [CallDeleteObjects bucket keys r]\<rparr>))"

definition svc_Presign :: "'w s3_api \<Rightarrow> 'w world \<Rightarrow> GeneratePresignedUrlInput \<Rightarrow> (backend_error + string) \<times> 'w world" where
  "svc_Presign svc w inp =
     (case GeneratePresignedUrl svc (outside w) inp of
        (r, s) \<Rightarrow> (r, \<lparr>outside = s, trace = trace w @ [CallPresign inp r]\<rparr>))"

definition svc_CreateMultipartUpload :: "'w s3_api \<Rightarrow> 'w world \<Rightarrow> CreateMultipartUploadInput \<Rightarrow> (backend_error + string) \<times> 'w world" where
  "svc_CreateMultipartUpload svc w inp =
     (case CreateMultipartUploadWithContext svc (outside w) inp of
        (r, s) \<Rightarrow> (r, \<lparr>outside = s, trace = trace w @ [CallCreateMultipartUpload inp r]\<rparr>))"

subsection \<open>Policy, requests, sessions\<close>

text \<open>\<^verbatim>\<open>ent.StoragePolicy\<close> with the fields of \<^verbatim>\<open>policy.Settings\<close> the driver reads.\<close>

record StoragePolicy =
  BucketName :: string
  IsPrivate :: bool
  ChunkSize :: int64
  S3DeleteBatchSize :: int64

text \<open>\<^verbatim>\<open>fs.UploadProps\<close>: \<^verbatim>\<open>Uri.Name()\<close> is kept as the field \<open>UriName\<close>, \<^verbatim>\<open>ExpireAt\<close> in nanoseconds.\<close>

record UploadProps =
  SavePath :: string
  Size :: int64
  MimeType :: string
  UriName :: string
  UploadSessionID :: string
  ExpireAt :: int

text \<open>\<^verbatim>\<open>fs.UploadRequest\<close>: the properties, the write mode bits and the bytes of the reader.\<close>

record UploadRequest =
  req_Props :: UploadProps
  Mode :: int64
  Content :: "8 word list"

record UploadSession =
  Props :: UploadProps
  SentinelTaskID :: int64
  us_ChunkSize :: int64
  Callback :: string
  CallbackSecret :: string
  UploadID :: string

record UploadCredential =
  uc_UploadID :: string
  UploadURLs :: "string list"
  CompleteURL :: string
  SessionID :: string
  uc_ChunkSize :: int64

text \<open>
  A parsed \<^verbatim>\<open>url.URL\<close>: \<open>Base\<close> is what \<^verbatim>\<open>String()\<close> prints before the query (scheme,
  authority and escaped path), \<open>Fragment\<close> the escaped fragment. \<^verbatim>\<open>String()\<close> appends
  \<^verbatim>\<open>?\<close> and the raw query when \<^verbatim>\<open>ForceQuery\<close> is set or the raw query is not empty, then
  \<^verbatim>\<open>#\<close> and the fragment when there is one.
\<close>

record URL =
  Base :: string
  RawQuery :: string
  ForceQuery :: bool
  Fragment :: string

definition url_String :: "URL \<Rightarrow> string" where
  "url_String u =
     Base u
     @ (if ForceQuery u \<or> RawQuery u \<noteq> '''' then ''?'' @ RawQuery u else '''')
     @ (if Fragment u \<noteq> '''' then ''#'' @ Fragment u else '''')"

text \<open>
  \<^verbatim>\<open>url.Parse\<close> of the standard library, as far as the query and the fragment go. It cuts
  the fragment off at the first \<^verbatim>\<open>#\<close>; of what is left, a single \<^verbatim>\<open>?\<close> at the very end only
  sets \<^verbatim>\<open>ForceQuery\<close>, and otherwise the text after the first \<^verbatim>\<open>?\<close> is the raw query. The
  scheme, which is split off before the query, has no \<^verbatim>\<open>?\<close> in it, so the cut can be made
  on the whole text. \<open>Base\<close> stands for scheme, authority and path, which the printer
  writes back. The strings the parser refuses (a control character, a malformed scheme,
  host or escape) are a parameter, with the error.
\<close>

definition strings_Cut :: "string \<Rightarrow> char \<Rightarrow> string \<times> string" where
  "strings_Cut s sep = (takeWhile (\<lambda>c. c \<noteq> sep) s, drop 1 (dropWhile (\<lambda>c. c \<noteq> sep) s))"

definition url_Parse :: "(string \<Rightarrow> error option) \<Rightarrow> string \<Rightarrow> error + URL" where
  "url_Parse refused rawURL =
     (case refused rawURL of
        Some err \<Rightarrow> Inl err
      | None \<Rightarrow>
          (let (u, frag) = strings_Cut rawURL (CHR ''#'')
           in if u \<noteq> [] \<and> last u = CHR ''?'' \<and> count_list u (CHR ''?'') = 1
              then Inr \<lparr>Base = butlast u, RawQuery = [], ForceQuery = True, Fragment = frag\<rparr>
              else (let (rest, query) = strings_Cut u (CHR ''?'')
                    in Inr \<lparr>Base = rest, RawQuery = query, ForceQuery = False, Fragment = frag\<rparr>)))"

text \<open>
  The driver value. \<open>ModeOverwrite\<close> is the constant \<^verbatim>\<open>fs.ModeOverwrite\<close>, whose
  declaration is outside the sources: a parameter. So are the MIME detector, the
  callback route built from the site URL, the thumbnail settings, the strings
  \<^verbatim>\<open>url.Parse\<close> refuses, and the standard library's \<^verbatim>\<open>url.PathEscape\<close>.
\<close>

record 'w Driver =
  policy :: StoragePolicy
  chunkSize :: int64
  svc :: "'w s3_api"
  ModeOverwrite :: int64
  TypeByName :: "string \<Rightarrow> string"
  MasterSlaveCallbackUrl :: "string \<Rightarrow> string \<Rightarrow> string"
  ThumbSize :: "int \<times> int"
  ThumbEncodeFormat :: string
  ThumbEncodeQuality :: int
  url_refused :: "string \<Rightarrow> error option"
  url_PathEscape :: "string \<Rightarrow> string"

subsection \<open>\<^verbatim>\<open>New\<close>, \<^verbatim>\<open>Meta\<close> and \<^verbatim>\<open>CompleteUpload\<close>\<close>

record 'w Driver_deps =
  dep_svc :: "'w s3_api"
  dep_ModeOverwrite :: int64
  dep_TypeByName :: "string \<Rightarrow> string"
  dep_MasterSlaveCallbackUrl :: "string \<Rightarrow> string \<Rightarrow> string"
  dep_ThumbSize :: "int \<times> int"
  dep_ThumbEncodeFormat :: string
  dep_ThumbEncodeQuality :: int
  dep_url_refused :: "string \<Rightarrow> error option"
  dep_url_PathEscape :: "string \<Rightarrow> string"

text \<open>
  \<^verbatim>\<open>New\<close>: the chunk size of the driver is the policy's, 25 MiB (\<^verbatim>\<open>25 << 20\<close>) when
  the policy leaves it 0. The collaborators come in one record.
\<close>

definition New :: "StoragePolicy \<Rightarrow> 'w Driver_deps \<Rightarrow> 'w Driver" where
  "New pol deps =
     (let cs = (if ChunkSize pol = 0 then push_bit 20 25 else ChunkSize pol)
      in \<lparr>policy = pol, chunkSize = cs, svc = dep_svc deps,
          ModeOverwrite = dep_ModeOverwrite deps, TypeByName = dep_TypeByName deps,
          MasterSlaveCallbackUrl = dep_MasterSlaveCallbackUrl deps,
          ThumbSize = dep_ThumbSize deps, ThumbEncodeFormat = dep_ThumbEncodeFormat deps,
          ThumbEncodeQuality = dep_ThumbEncodeQuality deps,
          url_refused = dep_url_refused deps, url_PathEscape = dep_url_PathEscape deps\<rparr>)"

definition Meta :: "'w Driver \<Rightarrow> 'w world \<Rightarrow> string \<Rightarrow> (backend_error + MetaData) \<times> 'w world" where
  "Meta handler w path =
     (case svc_HeadObject (svc handler) w (BucketName (policy handler)) path of
        (Inl err, w') \<Rightarrow> (Inl err, w')
      | (Inr res, w') \<Rightarrow> (Inr \<lparr>md_Size = ContentLength res, md_Etag = ETag res\<rparr>, w'))"

definition CompleteUpload :: "'w Driver \<Rightarrow> 'w world \<Rightarrow> UploadSession \<Rightarrow> error option \<times> 'w world" where
  "CompleteUpload handler w session =
     (if SentinelTaskID session = 0 then (None, w)
      else
        (case Meta handler w (SavePath (Props session)) of
           (Inl err, w') \<Rightarrow> (Some (Wrapped ''failed to get uploaded file size'' (Backend err)), w')
         | (Inr res, w') \<Rightarrow>
             if md_Size res \<noteq> Size (Props session)
             then (Some (AppError CodeMetaMismatch
                     (''File size not match, expected: '' @ itoa (sint (Size (Props session)))
                        @ '', actual: '' @ itoa (sint (md_Size res)))), w')
             else (None, w')))"

subsection \<open>\<^verbatim>\<open>Put\<close>\<close>

text \<open>\<^verbatim>\<open>io.LimitReader(r, n)\<close> yields at most \<open>n\<close> bytes, none when \<open>n \<le> 0\<close>.\<close>

definition LimitReader :: "8 word list \<Rightarrow> int64 \<Rightarrow> 8 word list" where
  "LimitReader r n = take (nat (sint n)) r"

definition Put :: "'w Driver \<Rightarrow> 'w world \<Rightarrow> UploadRequest \<Rightarrow> error option \<times> 'w world" where
  "Put handler w file =
     (let overwrite = (Mode file AND ModeOverwrite handler = ModeOverwrite handler);
          dup = (if \<not> overwrite
                 then (case Meta handler w (SavePath (req_Props file)) of
                         (Inr _, w1) \<Rightarrow> (True, w1)
                       | (Inl _, w1) \<Rightarrow> (False, w1))
                 else (False, w))
      in case dup of
           (True, w1) \<Rightarrow> (Some ErrFileExisted, w1)
         | (False, w1) \<Rightarrow>
             (let mimeType = (if MimeType (req_Props file) = ''''
                              then TypeByName handler (UriName (req_Props file))
                              else MimeType (req_Props file))
              in case svc_Upload (svc handler) w1
                     \<lparr>up_Bucket = BucketName (policy handler),
                      up_Key = SavePath (req_Props file),
                      up_Body = LimitReader (Content file) (Size (req_Props file)),
                      up_ContentType = mimeType,
                      up_PartSize = chunkSize handler\<rparr> of
                   (Some err, w2) \<Rightarrow> (Some (Backend err), w2)
                 | (None, w2) \<Rightarrow> (None, w2)))"

subsection \<open>\<^verbatim>\<open>Delete\<close>\<close>

text \<open>
  \<^verbatim>\<open>lo.Chunk(collection, size)\<close> of the library \<^verbatim>\<open>samber/lo\<close>: consecutive slices of
  \<open>size\<close> elements, the last one shorter; it panics when \<open>size \<le> 0\<close>.
\<close>

function chunks_of :: "nat \<Rightarrow> 'a list \<Rightarrow> 'a list list" where
  "chunks_of n xs = (if n = 0 \<or> xs = [] then [] else take n xs # chunks_of n (drop n xs))"
  by pat_completeness auto
termination
  by (relation "measure (\<lambda>(n, xs). length xs)") auto

declare chunks_of.simps [simp del]

definition lo_Chunk :: "'a list \<Rightarrow> int \<Rightarrow> error + 'a list list" where
  "lo_Chunk collection sz =
     (if sz \<le> 0 then Inl (Panic ''Second parameter must be greater than 0'')
      else Inr (chunks_of (nat sz) collection))"

definition ErrCodeNoSuchKey :: string where
  "ErrCodeNoSuchKey = ''NoSuchKey''"

text \<open>
  The body of the loop over the groups: the state is \<^verbatim>\<open>failed\<close>, \<^verbatim>\<open>lastErr\<close> and the
  world.
\<close>

definition Delete_group :: "'w Driver \<Rightarrow> string list \<times> backend_error option \<times> 'w world \<Rightarrow> string list
    \<Rightarrow> string list \<times> backend_error option \<times> 'w world" where
  "Delete_group handler st grp =
     (case st of (failed, lastErr, w) \<Rightarrow>
        if length grp = 1
        then (case svc_DeleteObject (svc handler) w (BucketName (policy handler)) (hd grp) of
                (None, w') \<Rightarrow> (failed, lastErr, w')
              | (Some err, w') \<Rightarrow>
                  (case err of
                     AwsError code msg \<Rightarrow>
                       if code = ErrCodeNoSuchKey then (failed, lastErr, w')
                       else (failed @ [hd grp], Some err, w')
                   | PlainError msg \<Rightarrow> (failed @ [hd grp], Some err, w')))
        else (case svc_DeleteObjects (svc handler) w (BucketName (policy handler)) grp of
                (Inl err, w') \<Rightarrow> (failed @ grp, Some err, w')
              | (Inr errs, w') \<Rightarrow> (failed @ map de_Key errs, lastErr, w')))"

definition Delete :: "'w Driver \<Rightarrow> 'w world \<Rightarrow> string list
    \<Rightarrow> (error + string list \<times> backend_error option) \<times> 'w world" where
  "Delete handler w files =
     (let batchSize = (if S3DeleteBatchSize (policy handler) = 0 then 1000
                       else S3DeleteBatchSize (policy handler))
      in case lo_Chunk files (sint batchSize) of
           Inl p \<Rightarrow> (Inl p, w)
         | Inr groups \<Rightarrow>
             (case foldl (Delete_group handler) ([], None, w) groups of
                (failed, lastErr, w') \<Rightarrow> (Inr (failed, lastErr), w')))"

subsection \<open>\<^verbatim>\<open>Thumb\<close> and \<^verbatim>\<open>Source\<close>\<close>

text \<open>
  \<^verbatim>\<open>time.Until(t)\<close> is \<^verbatim>\<open>t.Sub(time.Now())\<close>: the difference in nanoseconds, saturated to
  the range of \<^verbatim>\<open>time.Duration\<close> (an \<^verbatim>\<open>int64\<close>).
\<close>

definition time_Until :: "int \<Rightarrow> int \<Rightarrow> int" where
  "time_Until now t = max (- (2 ^ 63)) (min (2 ^ 63 - 1) (t - now))"

text \<open>
  \<^verbatim>\<open>int64(d.Seconds())\<close>: the duration in seconds, truncated towards zero.
  \<^verbatim>\<open>Seconds\<close> goes through \<^verbatim>\<open>float64\<close>; the model divides exactly, which is the same
  value whenever the duration is a whole number of seconds (and differs by at most one
  second otherwise).
\<close>

definition Seconds_int64 :: "int \<Rightarrow> int64" where
  "Seconds_int64 d = word_of_int (if d < 0 then - ((- d) div 1000000000) else d div 1000000000)"

text \<open>\<^verbatim>\<open>driver.GetSourceArgs\<close>; \<^verbatim>\<open>Expire\<close> is a pointer, \<open>None\<close> when \<^verbatim>\<open>nil\<close>.\<close>

record GetSourceArgs =
  IsDownload :: bool
  DisplayName :: string
  Expire :: "int option"

definition Thumb :: "'w Driver \<Rightarrow> 'w world \<Rightarrow> int option \<Rightarrow> string \<Rightarrow> string \<Rightarrow> (error + string) \<times> 'w world" where
  "Thumb handler w expire ext source =
     (let (tw, th) = ThumbSize handler;
          thumbParam0 = ''@base@tag=imgScale&m=0&w='' @ itoa tw @ ''&h='' @ itoa th;
          fmt = ThumbEncodeFormat handler;
          thumbParam =
            (if fmt = ''jpg'' \<or> fmt = ''webp''
             then thumbParam0 @ ''&q='' @ itoa (ThumbEncodeQuality handler) @ ''&F='' @ fmt
             else if fmt = ''png'' then thumbParam0 @ ''&F='' @ fmt
             else thumbParam0);
          ttl = (case expire of
                   Some t \<Rightarrow> Seconds_int64 (time_Until (time_Now (svc handler) (outside w)) t)
                 | None \<Rightarrow> 604800)
      in case svc_Presign (svc handler) w
             \<lparr>ps_HTTPMethod = GET, ps_Bucket = BucketName (policy handler),
              ps_Key = source @ thumbParam, ps_Expires = ttl, ps_Parameters = [],
              ps_ContentType = None, ps_ResponseContentDisposition = None\<rparr> of
           (Inl err, w') \<Rightarrow> (Inl (Backend err), w')
         | (Inr thumbUrl, w') \<Rightarrow>
             (case url_Parse (url_refused handler) thumbUrl of
                Inl err \<Rightarrow> (Inl err, w')
              | Inr finalThumbURL \<Rightarrow>
                  (Inr (url_String (if \<not> IsPrivate (policy handler)
                                    then finalThumbURL\<lparr>RawQuery := ''''\<rparr>
                                    else finalThumbURL)), w')))"

definition Source :: "'w Driver \<Rightarrow> 'w world \<Rightarrow> string \<Rightarrow> GetSourceArgs \<Rightarrow> (error + string) \<times> 'w world" where
  "Source handler w source args =
     (let contentDescription =
            (if IsDownload args
             then Some (''attachment; filename='' @ [CHR 0x22] @ url_PathEscape handler (DisplayName args) @ [CHR 0x22])
             else None);
          ttl = (case Expire args of
                   Some t \<Rightarrow> Seconds_int64 (time_Until (time_Now (svc handler) (outside w)) t)
                 | None \<Rightarrow> 604800)
      in case svc_Presign (svc handler) w
             \<lparr>ps_HTTPMethod = GET, ps_Bucket = BucketName (policy handler),
              ps_Key = source, ps_Expires = ttl, ps_Parameters = [],
              ps_ContentType = None, ps_ResponseContentDisposition = contentDescription\<rparr> of
           (Inl err, w') \<Rightarrow> (Inl (Backend err), w')
         | (Inr downloadUrl, w') \<Rightarrow>
             (case url_Parse (url_refused handler) downloadUrl of
                Inl err \<Rightarrow> (Inl err, w')
              | Inr finalURL \<Rightarrow>
                  (Inr (url_String (if \<not> IsPrivate (policy handler)
                                    then finalURL\<lparr>RawQuery := ''''\<rparr>
                                    else finalURL)), w')))"

subsection \<open>The chunk planner\<close>

text \<open>
  Modelled from the spec: package \<^verbatim>\<open>chunk\<close> (\<^verbatim>\<open>NewChunkGroup\<close>, \<^verbatim>\<open>Num\<close>, \<^verbatim>\<open>Next\<close>,
  \<^verbatim>\<open>Index\<close>, \<^verbatim>\<open>Process\<close>) and \<^verbatim>\<open>backoff.ConstantBackoff\<close> are not among the sources.
  The spec (4.2) gives the planner: for \<open>totalSize\<close> and \<open>chunkSize\<close> the chunk count is
  \<open>ceil(totalSize/chunkSize)\<close>; a sequential cursor (advance, current index); and a
  retry policy saying how many times a failure on the current chunk is retried before it
  surfaces. The ceiling is written with integer division, which rounds down:
  \<open>ceil(a/b) = - floor(- a/b)\<close>.
\<close>

definition chunkCount :: "int \<Rightarrow> int \<Rightarrow> int" where
  "chunkCount totalSize cs = - ((- totalSize) div cs)"

record ConstantBackoff =
  Retries :: nat

text \<open>\<^verbatim>\<open>&backoff.ConstantBackoff{}\<close>: the zero value, every field zero.\<close>

definition ConstantBackoff_zero :: ConstantBackoff where
  "ConstantBackoff_zero = \<lparr>Retries = 0\<rparr>"

record ChunkGroup =
  cg_fileSize :: int
  cg_chunkSize :: int
  cg_backoff :: ConstantBackoff
  currentIndex :: int
  chunkNum :: int

definition NewChunkGroup :: "UploadRequest \<Rightarrow> int64 \<Rightarrow> ConstantBackoff \<Rightarrow> ChunkGroup" where
  "NewChunkGroup file cs backoff =
     \<lparr>cg_fileSize = sint (Size (req_Props file)), cg_chunkSize = sint cs, cg_backoff = backoff,
      currentIndex = - 1,
      chunkNum = chunkCount (sint (Size (req_Props file))) (sint cs)\<rparr>"

definition Num :: "ChunkGroup \<Rightarrow> int" where
  "Num c = chunkNum c"

definition Index :: "ChunkGroup \<Rightarrow> int" where
  "Index c = currentIndex c"

text \<open>\<^verbatim>\<open>Next\<close> advances the cursor and says whether it still points at a chunk.\<close>

definition Next :: "ChunkGroup \<Rightarrow> bool \<times> ChunkGroup" where
  "Next c = (let c' = c\<lparr>currentIndex := currentIndex c + 1\<rparr> in (currentIndex c' < chunkNum c', c'))"

text \<open>
  \<^verbatim>\<open>Process\<close> runs the processor on the current chunk and runs it again after a failure,
  as many times as the policy allows; then the failure surfaces.
\<close>

primrec Process_retry :: "nat \<Rightarrow> ('s \<Rightarrow> error option \<times> 's) \<Rightarrow> 's \<Rightarrow> error option \<times> 's" where
  "Process_retry 0 f s = f s"
| "Process_retry (Suc n) f s =
     (case f s of (None, s') \<Rightarrow> (None, s') | (Some e, s') \<Rightarrow> Process_retry n f s')"

definition Process :: "ChunkGroup \<Rightarrow> (ChunkGroup \<Rightarrow> 's \<Rightarrow> error option \<times> 's) \<Rightarrow> 's \<Rightarrow> error option \<times> 's" where
  "Process c processor s = Process_retry (Retries (cg_backoff c)) (processor c) s"

subsection \<open>\<^verbatim>\<open>Token\<close>\<close>

text \<open>
  The function literal passed to \<^verbatim>\<open>chunks.Process\<close>: it signs the upload URL of the
  current chunk and stores it at the chunk's index. It captures the session, the upload
  id and the slice \<^verbatim>\<open>urls\<close>; the slice and the world are its state. A store outside the
  slice is Go's index panic.
\<close>

definition Token_sign_chunk :: "'w Driver \<Rightarrow> UploadSession \<Rightarrow> string \<Rightarrow> ChunkGroup
    \<Rightarrow> string list \<times> 'w world \<Rightarrow> error option \<times> string list \<times> 'w world" where
  "Token_sign_chunk handler uploadSession uploadID c st =
     (case st of (urls, w) \<Rightarrow>
        (let expireSeconds = Seconds_int64 (time_Until (time_Now (svc handler) (outside w))
                                              (ExpireAt (Props uploadSession)));
             partNumber = Index c + 1
         in case svc_Presign (svc handler) w
                \<lparr>ps_HTTPMethod = PUT, ps_Bucket = BucketName (policy handler),
                 ps_Key = SavePath (Props uploadSession), ps_Expires = expireSeconds,
                 ps_Parameters = [(''partNumber'', itoa partNumber), (''uploadId'', uploadID)],
                 ps_ContentType = Some ''application/octet-stream'',
                 ps_ResponseContentDisposition = None\<rparr> of
              (Inl err, w') \<Rightarrow>
                (Some (Wrapped (''failed to generate presigned upload url for chunk '' @ itoa partNumber)
                         (Backend err)), urls, w')
            | (Inr signedURL, w') \<Rightarrow>
                if 0 \<le> Index c \<and> nat (Index c) < length urls
                then (None, urls[nat (Index c) := signedURL], w')
                else (Some (Panic ''index out of range''), urls, w')))"

text \<open>The loop \<^verbatim>\<open>for chunks.Next() { ... }\<close>; it returns at the first error.\<close>

function Token_chunks :: "'w Driver \<Rightarrow> UploadSession \<Rightarrow> string \<Rightarrow> ChunkGroup
    \<Rightarrow> string list \<times> 'w world \<Rightarrow> error option \<times> string list \<times> 'w world" where
  "Token_chunks handler uploadSession uploadID c st =
     (if fst (Next c)
      then (case Process (snd (Next c)) (Token_sign_chunk handler uploadSession uploadID) st of
              (Some err, st') \<Rightarrow> (Some err, st')
            | (None, st') \<Rightarrow> Token_chunks handler uploadSession uploadID (snd (Next c)) st')
      else (None, st))"
  by pat_completeness auto
termination
  by (relation "measure (\<lambda>(handler, uploadSession, uploadID, c, st). nat (chunkNum c - currentIndex c))")
     (auto simp: Next_def Let_def)

declare Token_chunks.simps [simp del]

text \<open>
  \<^verbatim>\<open>Token\<close> writes the chunk size, the callback and the upload id into the session it is
  given: the session comes back with the result. \<^verbatim>\<open>make([]string, n)\<close> panics for a
  negative \<open>n\<close>.
\<close>

definition Token :: "'w Driver \<Rightarrow> 'w world \<Rightarrow> UploadSession \<Rightarrow> UploadRequest
    \<Rightarrow> (error + UploadCredential) \<times> UploadSession \<times> 'w world" where
  "Token handler w uploadSession file =
     (case Meta handler w (SavePath (req_Props file)) of
        (Inr _, w1) \<Rightarrow> (Inl ErrFileExisted, uploadSession, w1)
      | (Inl _, w1) \<Rightarrow>
          (let us1 = uploadSession
                 \<lparr>us_ChunkSize := chunkSize handler,
                  Callback := MasterSlaveCallbackUrl handler
                                (UploadSessionID (Props uploadSession)) (CallbackSecret uploadSession)\<rparr>;
               mimeType = (if MimeType (req_Props file) = ''''
                           then TypeByName handler (UriName (req_Props file))
                           else MimeType (req_Props file))
           in case svc_CreateMultipartUpload (svc handler) w1
                  \<lparr>cm_Bucket = BucketName (policy handler), cm_Key = SavePath (Props us1),
                   cm_Expires = ExpireAt (Props us1), cm_ContentType = mimeType\<rparr> of
                (Inl err, w2) \<Rightarrow>
                  (Inl (Wrapped ''failed to create multipart upload'' (Backend err)), us1, w2)
              | (Inr uploadID, w2) \<Rightarrow>
                  (let us2 = us1\<lparr>UploadID := uploadID\<rparr>;
                       chunks = NewChunkGroup file (chunkSize handler) ConstantBackoff_zero
                   in if Num chunks < 0
                      then (Inl (Panic ''makeslice: len out of range''), us2, w2)
                      else
                        (case Token_chunks handler us2 uploadID chunks
                                (replicate (nat (Num chunks)) '''', w2) of
                           (Some err, urls, w3) \<Rightarrow> (Inl err, us2, w3)
                         | (None, urls, w3) \<Rightarrow>
                             (let expireSeconds =
                                    Seconds_int64 (time_Until (time_Now (svc handler) (outside w3))
                                                     (ExpireAt (Props us2)))
                              in case svc_Presign (svc handler) w3
                                     \<lparr>ps_HTTPMethod = POST, ps_Bucket = BucketName (policy handler),
                                      ps_Key = SavePath (req_Props file), ps_Expires = expireSeconds,
                                      ps_Parameters = [(''uploadId'', uploadID)],
                                      ps_ContentType = Some ''application/octet-stream'',
                                      ps_ResponseContentDisposition = None\<rparr> of
                                   (Inl err, w4) \<Rightarrow> (Inl (Backend err), us2, w4)
                                 | (Inr signedURL, w4) \<Rightarrow>
                                     (Inr \<lparr>uc_UploadID = uploadID, UploadURLs = urls,
                                           CompleteURL = signedURL,
                                           SessionID = UploadSessionID (Props us2),
                                           uc_ChunkSize = chunkSize handler\<rparr>, us2, w4))))))"

subsection \<open>Reading a call trace\<close>

text \<open>The time-to-live of every presigning call of a trace, in seconds.\<close>

fun presign_ttl :: "s3_exchange \<Rightarrow> int list" where
  "presign_ttl (CallPresign inp r) = [sint (ps_Expires inp)]"
| "presign_ttl _ = []"

definition presign_ttls :: "s3_exchange list \<Rightarrow> int list" where
  "presign_ttls tr = concat (map presign_ttl tr)"

text \<open>
  What \<^verbatim>\<open>Source\<close> and \<^verbatim>\<open>Thumb\<close> make of the answer of the presigning call: their common
  last statements, as a function of that answer.
\<close>

definition presigned_result :: "'w Driver \<Rightarrow> backend_error + string \<Rightarrow> error + string" where
  "presigned_result handler r =
     (case r of
        Inl err \<Rightarrow> Inl (Backend err)
      | Inr signedUrl \<Rightarrow>
          (case url_Parse (url_refused handler) signedUrl of
             Inl err \<Rightarrow> Inl err
           | Inr u \<Rightarrow> Inr (url_String (if \<not> IsPrivate (policy handler)
                                         then u\<lparr>RawQuery := ''''\<rparr> else u))))"

text \<open>
  The delete calls of a trace: the keys a call asked to delete, the keys its answer
  reports as not deleted (a failed call reports all of its keys; a not-found answer to a
  single delete reports none), and the error of the call itself, if it counts.
\<close>

fun requested_keys :: "s3_exchange \<Rightarrow> string list" where
  "requested_keys (CallDeleteObject b k r) = [k]"
| "requested_keys (CallDeleteObjects b ks r) = ks"
| "requested_keys _ = []"

fun failed_keys :: "s3_exchange \<Rightarrow> string list" where
  "failed_keys (CallDeleteObject b k None) = []"
| "failed_keys (CallDeleteObject b k (Some (AwsError code msg))) =
     (if code = ErrCodeNoSuchKey then [] else [k])"
| "failed_keys (CallDeleteObject b k (Some (PlainError msg))) = [k]"
| "failed_keys (CallDeleteObjects b ks (Inl err)) = ks"
| "failed_keys (CallDeleteObjects b ks (Inr errs)) = map de_Key errs"
| "failed_keys _ = []"

fun call_error :: "s3_exchange \<Rightarrow> backend_error option" where
  "call_error (CallDeleteObject b k (Some (AwsError code msg))) =
     (if code = ErrCodeNoSuchKey then None else Some (AwsError code msg))"
| "call_error (CallDeleteObject b k (Some (PlainError msg))) = Some (PlainError msg)"
| "call_error (CallDeleteObjects b ks (Inl err)) = Some err"
| "call_error _ = None"

definition last_error :: "backend_error option \<Rightarrow> s3_exchange list \<Rightarrow> backend_error option" where
  "last_error init tr = foldl (\<lambda>acc c. case call_error c of Some e \<Rightarrow> Some e | None \<Rightarrow> acc) init tr"

fun is_delete_call :: "nat \<Rightarrow> s3_exchange \<Rightarrow> bool" where
  "is_delete_call n (CallDeleteObject b k r) = True"
| "is_delete_call n (CallDeleteObjects b ks r) = (1 < length ks \<and> length ks \<le> n)"
| "is_delete_call n _ = False"

text \<open>
  \<open>is_part_url tr key uploadID n url\<close>: in the trace \<open>tr\<close>, \<open>url\<close> is the answer to a
  presigning call for a \<^verbatim>\<open>PUT\<close> of part number \<open>n\<close> of the multipart upload \<open>uploadID\<close> to
  the object \<open>key\<close>; \<open>is_complete_url\<close> likewise for the \<^verbatim>\<open>POST\<close> that completes the upload.
\<close>

definition is_part_url :: "s3_exchange list \<Rightarrow> string \<Rightarrow> string \<Rightarrow> int \<Rightarrow> string \<Rightarrow> bool" where
  "is_part_url tr key uploadID n url =
     list_ex (\<lambda>c. case c of
                     CallPresign inp r \<Rightarrow>
                       r = Inr url \<and> ps_HTTPMethod inp = PUT \<and> ps_Key inp = key \<and>
                       ps_Parameters inp = [(''partNumber'', itoa n), (''uploadId'', uploadID)]
                   | _ \<Rightarrow> False) tr"



text \<open>
  The requests \<^verbatim>\<open>Source\<close> and \<^verbatim>\<open>Thumb\<close> hand to the presigner: the literals of the two
  functions, as functions of their arguments.
\<close>

definition Source_request :: "'w Driver \<Rightarrow> 'w world \<Rightarrow> string \<Rightarrow> GetSourceArgs \<Rightarrow> GeneratePresignedUrlInput" where
  "Source_request handler w source args =
     \<lparr>ps_HTTPMethod = GET, ps_Bucket = BucketName (policy handler), ps_Key = source,
      ps_Expires = (case Expire args of
                      Some t \<Rightarrow> Seconds_int64 (time_Until (time_Now (svc handler) (outside w)) t)
                    | None \<Rightarrow> 604800),
      ps_Parameters = [], ps_ContentType = None,
      ps_ResponseContentDisposition =
        (if IsDownload args
         then Some (''attachment; filename='' @ [CHR 0x22] @ url_PathEscape handler (DisplayName args) @ [CHR 0x22])
         else None)\<rparr>"

definition Thumb_key :: "'w Driver \<Rightarrow> string \<Rightarrow> string" where
  "Thumb_key handler source =
     source @ ''@base@tag=imgScale&m=0&w='' @ itoa (fst (ThumbSize handler))
       @ ''&h='' @ itoa (snd (ThumbSize handler))
       @ (if ThumbEncodeFormat handler = ''jpg'' \<or> ThumbEncodeFormat handler = ''webp''
          then ''&q='' @ itoa (ThumbEncodeQuality handler) @ ''&F='' @ ThumbEncodeFormat handler
          else if ThumbEncodeFormat handler = ''png'' then ''&F='' @ ThumbEncodeFormat handler
          else [])"

definition Thumb_request :: "'w Driver \<Rightarrow> 'w world \<Rightarrow> int option \<Rightarrow> string \<Rightarrow> GeneratePresignedUrlInput" where
  "Thumb_request handler w expire source =
     \<lparr>ps_HTTPMethod = GET, ps_Bucket = BucketName (policy handler), ps_Key = Thumb_key handler source,
      ps_Expires = (case expire of
                      Some t \<Rightarrow> Seconds_int64 (time_Until (time_Now (svc handler) (outside w)) t)
                    | None \<Rightarrow> 604800),
      ps_Parameters = [], ps_ContentType = None, ps_ResponseContentDisposition = None\<rparr>"

section \<open>The archive service\<close>

subsection \<open>Files, entities and collaborators\<close>

datatype file_type = FileTypeFile | FileTypeFolder

text \<open>
  What the archive code reads of an \<^verbatim>\<open>fs.File\<close>: \<open>f_Uri\<close> is \<^verbatim>\<open>Uri(false)\<close> printed,
  \<open>f_UriDir\<close> is \<^verbatim>\<open>Uri(false).Dir()\<close>. \<open>f_ListError\<close> is the error of listing the children
  of a folder, when the listing fails.
\<close>

record FileInfo =
  f_Type :: file_type
  f_DisplayName :: string
  f_Uri :: string
  f_UriDir :: string
  f_Ext :: string
  f_Size :: int64
  f_UpdatedAt :: int
  f_IsSymbolic :: bool
  f_PrimaryEntityID :: int
  f_ListError :: "error option"

datatype fs_File = FsFile (info: FileInfo) (children: "fs_File list")

record Entity =
  ent_ID :: int
  ent_Size :: int64

text \<open>
  An \<^verbatim>\<open>entitysource.EntitySource\<close> as a reader: the bytes it delivers and the error that
  ends the read, if any.
\<close>

record EntitySource =
  es_Entity :: Entity
  es_Data :: "8 word list"
  es_ReadError :: "error option"

record ArchivedFile =
  af_Name :: string
  af_Size :: int64
  af_UpdatedAt :: "int option"
  af_IsDirectory :: bool

text \<open>An entry of an archive as the format readers present it (\<^verbatim>\<open>zip.File\<close>, \<^verbatim>\<open>sevenzip.File\<close>).\<close>

record archive_member =
  am_Name :: string
  am_Comment :: string
  am_NonUTF8 :: bool
  am_Size :: int64
  am_ModTime :: int
  am_IsDir :: bool

text \<open>The values of the table \<^verbatim>\<open>ZipEncodings\<close>.\<close>

datatype encoding =
    CodePage866 | ISO8859_2 | ISO8859_3 | ISO8859_4 | ISO8859_5 | ISO8859_6 | ISO8859_7
  | ISO8859_8 | ISO8859_8I | ISO8859_10 | ISO8859_13 | ISO8859_14 | ISO8859_15 | ISO8859_16
  | KOI8R | KOI8U | Macintosh | Windows874 | Windows1250 | Windows1251 | Windows1252
  | Windows1253 | Windows1254 | Windows1255 | Windows1256 | Windows1257 | Windows1258
  | MacintoshCyrillic | GBK | GB18030 | Big5 | EUCJP | ISO2022JP | ShiftJIS | EUCKR
  | UTF16BE | UTF16LE

definition ZipEncodings :: "(string \<times> encoding) list" where
  "ZipEncodings =
     [(''ibm866'', CodePage866), (''iso8859_2'', ISO8859_2), (''iso8859_3'', ISO8859_3),
      (''iso8859_4'', ISO8859_4), (''iso8859_5'', ISO8859_5), (''iso8859_6'', ISO8859_6),
      (''iso8859_7'', ISO8859_7), (''iso8859_8'', ISO8859_8), (''iso8859_8I'', ISO8859_8I),
      (''iso8859_10'', ISO8859_10), (''iso8859_13'', ISO8859_13), (''iso8859_14'', ISO8859_14),
      (''iso8859_15'', ISO8859_15), (''iso8859_16'', ISO8859_16), (''koi8r'', KOI8R),
      (''koi8u'', KOI8U), (''macintosh'', Macintosh), (''windows874'', Windows874),
      (''windows1250'', Windows1250), (''windows1251'', Windows1251),
      (''windows1252'', Windows1252), (''windows1253'', Windows1253),
      (''windows1254'', Windows1254), (''windows1255'', Windows1255),
      (''windows1256'', Windows1256), (''windows1257'', Windows1257),
      (''windows1258'', Windows1258), (''macintoshcyrillic'', MacintoshCyrillic),
      (''gbk'', GBK), (''gb18030'', GB18030), (''big5'', Big5), (''eucjp'', EUCJP),
      (''iso2022jp'', ISO2022JP), (''shiftjis'', ShiftJIS), (''euckr'', EUCKR),
      (''utf16be'', UTF16BE), (''utf16le'', UTF16LE)]"

text \<open>
  \<^verbatim>\<open>strings.ToLower\<close>: on text that is all ASCII it lower-cases the letters \<^verbatim>\<open>A\<close> to \<^verbatim>\<open>Z\<close>; on
  any other text it maps \<^verbatim>\<open>unicode.ToLower\<close> over the runes, which is the standard
  library's case table and a parameter here.
\<close>

definition lower_char :: "char \<Rightarrow> char" where
  "lower_char c = (if 65 \<le> (of_char c :: nat) \<and> (of_char c :: nat) \<le> 90
                   then char_of ((of_char c :: nat) + 32) else c)"

definition ToLower :: "(string \<Rightarrow> string) \<Rightarrow> string \<Rightarrow> string" where
  "ToLower unicode_lower s =
     (if list_all (\<lambda>c. (of_char c :: nat) < 128) s then map lower_char s else unicode_lower s)"

text \<open>\<^verbatim>\<open>strings.TrimPrefix\<close>.\<close>

definition TrimPrefix :: "string \<Rightarrow> string \<Rightarrow> string" where
  "TrimPrefix s p = (if take (length p) s = p then drop (length p) s else s)"

text \<open>\<^verbatim>\<open>zip.FileHeader\<close>, the fields \<^verbatim>\<open>compressFileToArchive\<close> sets.\<close>

datatype zip_method = Store | Deflate

record FileHeader =
  fh_Name :: string
  fh_Modified :: int
  fh_UncompressedSize64 :: "64 word"
  fh_Method :: zip_method

text \<open>
  The manager value \<open>m\<close> with what the archive code reaches through it. All of it is
  outside the sources and a parameter here: resolving a URI (\<^verbatim>\<open>m.fs.Get\<close>, and \<^verbatim>\<open>m.Get\<close>
  with the not-root option), the group's decompress size limit, \<^verbatim>\<open>fs.FindDesiredEntity\<close>,
  opening an entity source (by entity id), the archive readers \<^verbatim>\<open>zip.NewReader\<close> and
  \<^verbatim>\<open>sevenzip.NewReader\<close>, the text decoders, \<^verbatim>\<open>util.FormSlash\<close>, \<^verbatim>\<open>path.Join\<close> followed by
  \<^verbatim>\<open>filepath.FromSlash\<close>, whether \<^verbatim>\<open>zipWriter.CreateHeader\<close> refuses a header, and the
  case table of \<^verbatim>\<open>unicode.ToLower\<close>.
\<close>

record manager =
  fs_Get :: "string \<Rightarrow> error + fs_File"
  m_Get :: "string \<Rightarrow> error + fs_File"
  DecompressSize :: int64
  FindDesiredEntity :: "fs_File \<Rightarrow> string \<Rightarrow> bool \<times> Entity"
  GetEntitySource :: "int \<Rightarrow> error + EntitySource"
  zip_NewReader :: "EntitySource \<Rightarrow> int64 \<Rightarrow> error + archive_member list"
  sevenzip_NewReader :: "EntitySource \<Rightarrow> int64 \<Rightarrow> error + archive_member list"
  decoder_String :: "encoding \<Rightarrow> string \<Rightarrow> error + string"
  FormSlash :: "string \<Rightarrow> string"
  zip_path :: "string \<Rightarrow> string \<Rightarrow> string"
  CreateHeader_error :: "FileHeader \<Rightarrow> error option"
  unicode_ToLower :: "string \<Rightarrow> string"

subsection \<open>The listing cache\<close>

text \<open>
  Modelled from the spec: the cache (\<^verbatim>\<open>m.kv\<close>, package \<^verbatim>\<open>cache\<close>) is not among the
  sources. The spec calls it a generic TTL key-value store: a value set with a
  time-to-live is returned by a get inside the TTL window and is gone after it. Each
  entry carries the seconds it has left; \<open>kv_elapse d\<close> is the passing of \<open>d\<close> seconds.
\<close>

type_synonym cache = "string \<Rightarrow> (ArchivedFile list \<times> nat) option"

definition kv_Get :: "cache \<Rightarrow> string \<Rightarrow> ArchivedFile list option" where
  "kv_Get c k = map_option fst (c k)"

definition kv_Set :: "cache \<Rightarrow> string \<Rightarrow> ArchivedFile list \<Rightarrow> nat \<Rightarrow> cache" where
  "kv_Set c k v ttl = c(k \<mapsto> (v, ttl))"

definition kv_elapse :: "nat \<Rightarrow> cache \<Rightarrow> cache" where
  "kv_elapse d c =
     (\<lambda>k. case c k of
             None \<Rightarrow> None
           | Some (v, left) \<Rightarrow> if d < left then Some (v, left - d) else None)"

subsection \<open>\<^verbatim>\<open>ListArchiveFiles\<close>\<close>

definition ArchiveListCacheTTL :: nat where
  "ArchiveListCacheTTL = 3600"

definition getArchiveListCacheKey :: "int \<Rightarrow> string \<Rightarrow> string" where
  "getArchiveListCacheKey entity enc = ''archive_list_'' @ itoa entity @ ''_'' @ enc"

definition getZipFileList :: "manager \<Rightarrow> EntitySource \<Rightarrow> int64 \<Rightarrow> encoding option
    \<Rightarrow> error + ArchivedFile list" where
  "getZipFileList m file sz textEncoding =
     (case zip_NewReader m file sz of
        Inl err \<Rightarrow> Inl (Wrapped ''failed to create zip reader'' err)
      | Inr zr \<Rightarrow>
          Inr (map (\<lambda>f.
                 let name = (case textEncoding of
                               None \<Rightarrow> am_Name f
                             | Some enc \<Rightarrow>
                                 if am_NonUTF8 f
                                 then (case decoder_String m enc (am_Name f) of
                                         Inr filename \<Rightarrow> filename
                                       | Inl _ \<Rightarrow> am_Name f)
                                 else am_Name f)
                 in \<lparr>af_Name = FormSlash m name, af_Size = am_Size f,
                     af_UpdatedAt = Some (am_ModTime f), af_IsDirectory = am_IsDir f\<rparr>) zr))"

definition get7zFileList :: "manager \<Rightarrow> EntitySource \<Rightarrow> int64 \<Rightarrow> encoding option
    \<Rightarrow> error + ArchivedFile list" where
  "get7zFileList m file sz extEncoding =
     (case sevenzip_NewReader m file sz of
        Inl err \<Rightarrow> Inl (Wrapped ''failed to create 7z reader'' err)
      | Inr zr \<Rightarrow>
          Inr (map (\<lambda>f. \<lparr>af_Name = FormSlash m (am_Name f), af_Size = am_Size f,
                          af_UpdatedAt = Some (am_ModTime f), af_IsDirectory = am_IsDir f\<rparr>) zr))"

text \<open>
  What a test observes of a listing call besides its result: which entity sources were
  opened and closed and which decoder ran on which entity.
\<close>

datatype archive_event = EvOpen int | EvClose int | EvDecode string int

record list_state =
  kv :: cache
  events :: "archive_event list"

definition ListArchiveFiles :: "manager \<Rightarrow> list_state \<Rightarrow> string \<Rightarrow> string \<Rightarrow> string
    \<Rightarrow> (error + ArchivedFile list) \<times> list_state" where
  "ListArchiveFiles m st uri entity zipEncoding =
     (case fs_Get m uri of
        Inl err \<Rightarrow> (Inl (Wrapped ''failed to get file'' err), st)
      | Inr file \<Rightarrow>
          if f_Type (info file) \<noteq> FileTypeFile
          then (Inl (ErrNotSupportedAction (''path '' @ uri @ '' is not a file'')), st)
          else if 0 <s DecompressSize m \<and> DecompressSize m <s f_Size (info file)
          then (Inl (ErrFileSizeTooBig (''file size '' @ itoa (sint (f_Size (info file)))
                       @ '' exceeds the limit '' @ itoa (sint (DecompressSize m)))), st)
          else
            (case FindDesiredEntity m file entity of
               (False, _) \<Rightarrow> (Inl ErrEntityNotExist, st)
             | (True, targetEntity) \<Rightarrow>
                 (case (if zipEncoding \<noteq> ''''
                        then (case map_of ZipEncodings (ToLower (unicode_ToLower m) zipEncoding) of
                                None \<Rightarrow> Inl (ErrNotSupportedAction
                                               (''not supported zip encoding: '' @ zipEncoding))
                              | Some e \<Rightarrow> Inr (Some e))
                        else Inr None) of
                    Inl err \<Rightarrow> (Inl err, st)
                  | Inr enc \<Rightarrow>
                      (let cacheKey = getArchiveListCacheKey (ent_ID targetEntity) zipEncoding
                       in case kv_Get (kv st) cacheKey of
                            Some res \<Rightarrow> (Inr res, st)
                          | None \<Rightarrow>
                              (case GetEntitySource m (ent_ID targetEntity) of
                                 Inl err \<Rightarrow> (Inl (Wrapped ''failed to get entity source'' err), st)
                               | Inr es \<Rightarrow>
                                   (let st1 = st\<lparr>events := events st @ [EvOpen (ent_ID targetEntity)]\<rparr>;
                                        closing = (\<lambda>s. s\<lparr>events := events s @ [EvClose (ent_ID targetEntity)]\<rparr>)
                                    in if f_Ext (info file) \<noteq> ''zip'' \<and> f_Ext (info file) \<noteq> ''7z''
                                       then (Inl (ErrNotSupportedAction
                                                    (''not supported archive format: '' @ f_Ext (info file))),
                                             closing st1)
                                       else
                                         (let readerFunc = (if f_Ext (info file) = ''zip''
                                                            then getZipFileList else get7zFileList);
                                              st2 = st1\<lparr>events := events st1
                                                      @ [EvDecode (f_Ext (info file)) (ent_ID targetEntity)]\<rparr>
                                          in case readerFunc m es (ent_Size targetEntity) enc of
                                               Inl err \<Rightarrow>
                                                 (Inl (Wrapped ''failed to read file list'' err), closing st2)
                                             | Inr fileList \<Rightarrow>
                                                 (Inr fileList,
                                                  closing (st2\<lparr>kv := kv_Set (kv st2) cacheKey fileList
                                                                      ArchiveListCacheTTL\<rparr>)))))))))"

subsection \<open>\<^verbatim>\<open>CreateArchive\<close>\<close>

text \<open>
  The options \<^verbatim>\<open>o\<close> after every \<^verbatim>\<open>opt.Apply(o)\<close>: for the two callbacks, whether one is
  set; their calls are recorded in the state.
\<close>

record archive_options =
  ArchiveCompression :: bool
  DryRun :: bool
  ProgressFunc :: bool
  MaxArchiveSize :: int64

text \<open>
  The archive under construction: the entries written through the \<^verbatim>\<open>zip.Writer\<close> (header
  and bytes copied so far) and whether the writer was closed; next to it the calls of
  the dry-run and the progress callbacks, the counter \<^verbatim>\<open>failed\<close> and the byte counter
  \<^verbatim>\<open>compressed\<close>.
\<close>

record archive_state =
  failed :: int
  compressed :: int64
  entries :: "(FileHeader \<times> 8 word list) list"
  writer_closed :: bool
  dryrun_calls :: "(string \<times> Entity) list"
  progress_calls :: "(int64 \<times> int64 \<times> int64) list"

text \<open>\<^verbatim>\<open>io.Copy(writer, es)\<close> into the entry created last.\<close>

definition io_Copy :: "archive_state \<Rightarrow> EntitySource \<Rightarrow> error option \<times> archive_state" where
  "io_Copy st es =
     (es_ReadError es,
      st\<lparr>entries := (case rev (entries st) of
                         [] \<Rightarrow> []
                       | (h, d) # earlier \<Rightarrow> rev earlier @ [(h, d @ es_Data es)])\<rparr>)"

definition compressFileToArchive :: "manager \<Rightarrow> string \<Rightarrow> FileInfo \<Rightarrow> bool \<Rightarrow> bool
    \<Rightarrow> archive_state \<Rightarrow> error option \<times> archive_state" where
  "compressFileToArchive m parent file compression dryrun st =
     (case GetEntitySource m (f_PrimaryEntityID file) of
        Inl err \<Rightarrow>
          (Some (Wrapped (''failed to get entity source for file '' @ f_Uri file) err), st)
      | Inr es \<Rightarrow>
          (let zipName = zip_path m parent (f_DisplayName file)
           in if dryrun
              then (None, st\<lparr>dryrun_calls := dryrun_calls st @ [(zipName, es_Entity es)]\<rparr>)
              else
                (let header = \<lparr>fh_Name = zipName, fh_Modified = f_UpdatedAt file,
                               fh_UncompressedSize64 = f_Size file,
                               fh_Method = (if \<not> compression then Store else Deflate)\<rparr>
                 in case CreateHeader_error m header of
                      Some err \<Rightarrow>
                        (Some (Wrapped (''failed to create zip header for '' @ f_Uri file) err), st)
                    | None \<Rightarrow> io_Copy (st\<lparr>entries := entries st @ [(header, [])]\<rparr>) es)))"

text \<open>
  The statements both branches of the loop share: compress the file, count a failure,
  add the file's nominal size to \<^verbatim>\<open>compressed\<close>, report progress. Then the check of the
  ceiling, \<^verbatim>\<open>o.MaxArchiveSize > 0 && compressed > o.MaxArchiveSize\<close>.
\<close>

definition archive_file :: "manager \<Rightarrow> archive_options \<Rightarrow> string \<Rightarrow> FileInfo
    \<Rightarrow> archive_state \<Rightarrow> archive_state" where
  "archive_file m opt parent file st =
     (case compressFileToArchive m parent file (ArchiveCompression opt) (DryRun opt) st of
        (err, st1) \<Rightarrow>
          (let st2 = (if err \<noteq> None then st1\<lparr>failed := failed st1 + 1\<rparr> else st1);
               st3 = st2\<lparr>compressed := compressed st2 + f_Size file\<rparr>
           in if ProgressFunc opt
              then st3\<lparr>progress_calls := progress_calls st3 @ [(compressed st3, f_Size file, 0)]\<rparr>
              else st3))"

definition over_ceiling :: "archive_options \<Rightarrow> archive_state \<Rightarrow> bool" where
  "over_ceiling opt st = (0 <s MaxArchiveSize opt \<and> MaxArchiveSize opt <s compressed st)"

text \<open>
  Modelled from the spec: \<^verbatim>\<open>m.Walk\<close> is not among the sources. The spec (4.3) has a
  directory walked depth-first over its descendants; the walk function is called on each
  of them and an error it returns ends the walk and is the walk's result, as is the
  error of a folder that cannot be listed.
\<close>

fun Walk_nodes :: "(FileInfo \<Rightarrow> nat \<Rightarrow> 's \<Rightarrow> error option \<times> 's) \<Rightarrow> nat \<Rightarrow> fs_File list \<Rightarrow> 's
    \<Rightarrow> error option \<times> 's" where
  "Walk_nodes walk level [] s = (None, s)"
| "Walk_nodes walk level (FsFile i cs # rest) s =
     (case walk i level s of
        (Some err, s1) \<Rightarrow> (Some err, s1)
      | (None, s1) \<Rightarrow>
          (case (if f_Type i = FileTypeFolder
                 then (case f_ListError i of
                         Some err \<Rightarrow> (Some err, s1)
                       | None \<Rightarrow> Walk_nodes walk (level + 1) cs s1)
                 else (None, s1)) of
             (Some err, s2) \<Rightarrow> (Some err, s2)
           | (None, s2) \<Rightarrow> Walk_nodes walk level rest s2))"

definition Walk :: "fs_File \<Rightarrow> (FileInfo \<Rightarrow> nat \<Rightarrow> 's \<Rightarrow> error option \<times> 's) \<Rightarrow> 's \<Rightarrow> error option \<times> 's" where
  "Walk dir walk s =
     (case f_ListError (info dir) of
        Some err \<Rightarrow> (Some err, s)
      | None \<Rightarrow> Walk_nodes walk 1 (children dir) s)"

text \<open>The function literal passed to \<^verbatim>\<open>m.Walk\<close> for the root \<open>file\<close>.\<close>

definition CreateArchive_walk :: "manager \<Rightarrow> archive_options \<Rightarrow> FileInfo \<Rightarrow> FileInfo \<Rightarrow> nat
    \<Rightarrow> archive_state \<Rightarrow> error option \<times> archive_state" where
  "CreateArchive_walk m opt file f level st =
     (if f_Type f = FileTypeFolder \<or> f_IsSymbolic f then (None, st)
      else
        (let st' = archive_file m opt (TrimPrefix (f_UriDir f) (f_UriDir file)) f st
         in if over_ceiling opt st' then (Some ErrArchiveSrcSizeTooBig, st') else (None, st')))"

text \<open>The loop over the resolved roots. \<open>Some err\<close> is a \<^verbatim>\<open>return 0, err\<close> inside it.\<close>

fun CreateArchive_files :: "manager \<Rightarrow> archive_options \<Rightarrow> fs_File list \<Rightarrow> archive_state
    \<Rightarrow> error option \<times> archive_state" where
  "CreateArchive_files m opt [] st = (None, st)"
| "CreateArchive_files m opt (file # files) st =
     (if f_Type (info file) = FileTypeFile
      then
        (let st' = archive_file m opt ''/'' (info file) st
         in if over_ceiling opt st' then (Some ErrArchiveSrcSizeTooBig, st')
            else CreateArchive_files m opt files st')
      else
        (case Walk file (CreateArchive_walk m opt (info file)) st of
           (Some err, st') \<Rightarrow> CreateArchive_files m opt files (st'\<lparr>failed := failed st' + 1\<rparr>)
         | (None, st') \<Rightarrow> CreateArchive_files m opt files st'))"

text \<open>The first loop: every root is resolved before anything is written.\<close>

fun resolve_roots :: "manager \<Rightarrow> string list \<Rightarrow> error + fs_File list" where
  "resolve_roots m [] = Inr []"
| "resolve_roots m (uri # uris) =
     (case m_Get m uri of
        Inl err \<Rightarrow> Inl (Wrapped (''failed to get file '' @ uri) err)
      | Inr file \<Rightarrow>
          (case resolve_roots m uris of
             Inl err \<Rightarrow> Inl err
           | Inr files \<Rightarrow> Inr (file # files)))"

definition new_archive :: archive_state where
  "new_archive = \<lparr>failed = 0, compressed = 0, entries = [], writer_closed = False,
                   dryrun_calls = [], progress_calls = []\<rparr>"

text \<open>
  The result is Go's pair \<^verbatim>\<open>(int, error)\<close>, with the state the writer and the callbacks
  are left in. \<^verbatim>\<open>defer zipWriter.Close()\<close> runs on every return after the writer exists.
\<close>

definition CreateArchive :: "manager \<Rightarrow> string list \<Rightarrow> archive_options
    \<Rightarrow> (int \<times> error option) \<times> archive_state" where
  "CreateArchive m uris opt =
     (case resolve_roots m uris of
        Inl err \<Rightarrow> ((0, Some err), new_archive)
      | Inr files \<Rightarrow>
          (case CreateArchive_files m opt files new_archive of
             (Some err, st) \<Rightarrow> ((0, Some err), st\<lparr>writer_closed := True\<rparr>)
           | (None, st) \<Rightarrow> ((failed st, None), st\<lparr>writer_closed := True\<rparr>)))"
subsection \<open>Reading an archive run\<close>

text \<open>Every folder of the trees can be listed: a walk over them meets no error of its own.\<close>

fun listing_ok :: "fs_File list \<Rightarrow> bool" where
  "listing_ok [] = True"
| "listing_ok (FsFile i cs # rest) =
     ((if f_Type i = FileTypeFolder then f_ListError i = None \<and> listing_ok cs else True)
      \<and> listing_ok rest)"

text \<open>
  The files a run of \<^verbatim>\<open>CreateArchive\<close> compresses when the size ceiling does not stop it, in
  order, each with the parent path it is stored under: a root that is a file, under \<^verbatim>\<open>/\<close>;
  of a root that is not, the descendants that are neither folders nor symbolic links, as
  far as the walk gets: it ends at the first folder that cannot be listed.
\<close>

fun walk_inputs :: "FileInfo \<Rightarrow> fs_File list \<Rightarrow> (string \<times> FileInfo) list" where
  "walk_inputs file [] = []"
| "walk_inputs file (FsFile i cs # rest) =
     (if f_Type i = FileTypeFolder \<or> f_IsSymbolic i then []
      else [(TrimPrefix (f_UriDir i) (f_UriDir file), i)])
     @ (if f_Type i = FileTypeFolder \<and> f_ListError i = None then walk_inputs file cs else [])
     @ (if f_Type i = FileTypeFolder \<and> \<not> (f_ListError i = None \<and> listing_ok cs) then []
        else walk_inputs file rest)"

definition root_inputs :: "fs_File \<Rightarrow> (string \<times> FileInfo) list" where
  "root_inputs file =
     (if f_Type (info file) = FileTypeFile then [(''/'', info file)]
      else if f_ListError (info file) = None then walk_inputs (info file) (children file)
      else [])"

definition archive_inputs :: "fs_File list \<Rightarrow> (string \<times> FileInfo) list" where
  "archive_inputs files = concat (map root_inputs files)"

text \<open>A root that is not a file and whose walk meets a folder that cannot be listed.\<close>

definition walk_fails :: "fs_File \<Rightarrow> bool" where
  "walk_fails file =
     (f_Type (info file) \<noteq> FileTypeFile \<and>
      \<not> (f_ListError (info file) = None \<and> listing_ok (children file)))"

text \<open>
  The byte counter, started at \<open>c\<close>, gets above a positive ceiling after one of the
  files: the running sum of the nominal sizes in the code's own 64-bit arithmetic.
\<close>

fun ceiling_crossed :: "archive_options \<Rightarrow> int64 \<Rightarrow> FileInfo list \<Rightarrow> bool" where
  "ceiling_crossed opt c [] = False"
| "ceiling_crossed opt c (f # fs) =
     ((0 <s MaxArchiveSize opt \<and> MaxArchiveSize opt <s c + f_Size f)
      \<or> ceiling_crossed opt (c + f_Size f) fs)"

text \<open>
  A read or compress failure of a file, said of the collaborators alone: its entity
  source cannot be opened, or, outside a dry run, the archive writer refuses its header
  or reading the source ends in an error. \<open>zip_header\<close> is the header the file is given
  under its parent path, and \<open>written\<close> is what a file leaves in the archive: nothing
  if its source cannot be opened, in a dry run, or if the header is refused; else one
  entry with that header and the bytes read from its source.
\<close>

definition zip_header :: "manager \<Rightarrow> archive_options \<Rightarrow> string \<times> FileInfo \<Rightarrow> FileHeader" where
  "zip_header m opt x =
     \<lparr>fh_Name = zip_path m (fst x) (f_DisplayName (snd x)), fh_Modified = f_UpdatedAt (snd x),
      fh_UncompressedSize64 = f_Size (snd x),
      fh_Method = (if ArchiveCompression opt then Deflate else Store)\<rparr>"

definition read_fails :: "manager \<Rightarrow> archive_options \<Rightarrow> string \<times> FileInfo \<Rightarrow> bool" where
  "read_fails m opt x =
     (case GetEntitySource m (f_PrimaryEntityID (snd x)) of
        Inl err \<Rightarrow> True
      | Inr es \<Rightarrow>
          \<not> DryRun opt \<and> (CreateHeader_error m (zip_header m opt x) \<noteq> None \<or> es_ReadError es \<noteq> None))"

definition written :: "manager \<Rightarrow> archive_options \<Rightarrow> string \<times> FileInfo
    \<Rightarrow> (FileHeader \<times> 8 word list) list" where
  "written m opt x =
     (case GetEntitySource m (f_PrimaryEntityID (snd x)) of
        Inl err \<Rightarrow> []
      | Inr es \<Rightarrow>
          if DryRun opt \<or> CreateHeader_error m (zip_header m opt x) \<noteq> None then []
          else [(zip_header m opt x, es_Data es)])"

text \<open>The events of a listing call that are runs of a decoder.\<close>

fun is_decode :: "archive_event \<Rightarrow> bool" where
  "is_decode (EvDecode ext entity) = True"
| "is_decode _ = False"

definition decode_count :: "list_state \<Rightarrow> nat" where
  "decode_count st = length (filter is_decode (events st))"

text \<open>
  A listing call gets as far as the cache lookup, for the file, the target entity and the
  text encoding given: the conditions of the early returns before it, negated.
\<close>

definition reaches_cache :: "manager \<Rightarrow> string \<Rightarrow> string \<Rightarrow> string \<Rightarrow> fs_File \<Rightarrow> Entity
    \<Rightarrow> encoding option \<Rightarrow> bool" where
  "reaches_cache m uri entity zipEncoding file targetEntity enc =
     (fs_Get m uri = Inr file \<and> f_Type (info file) = FileTypeFile \<and>
      \<not> (0 <s DecompressSize m \<and> DecompressSize m <s f_Size (info file)) \<and>
      FindDesiredEntity m file entity = (True, targetEntity) \<and>
      (if zipEncoding = '''' then enc = None
       else enc \<noteq> None \<and> map_of ZipEncodings (ToLower (unicode_ToLower m) zipEncoding) = enc))"

text \<open>The shared statements of the loop, run over a list of files with their parents.\<close>

definition archive_all :: "manager \<Rightarrow> archive_options \<Rightarrow> (string \<times> FileInfo) list \<Rightarrow> archive_state
    \<Rightarrow> archive_state" where
  "archive_all m opt xs st = foldl (\<lambda>s x. archive_file m opt (fst x) (snd x) s) st xs"
section \<open>Concrete values for the closed examples\<close>

text \<open>
  A service double over a trivial outside world: no object exists, every mutation
  succeeds, a presigned URL carries its signature and expiry in the query string.
  The examples override single operations of it.
\<close>

definition quiet_api :: "unit s3_api" where
  "quiet_api = \<lparr>
     HeadObjectWithContext = (\<lambda>s b k. (Inl (AwsError ''NotFound'' ''''), s)),
     UploadWithContext = (\<lambda>s i. (None, s)),
     DeleteObjectWithContext = (\<lambda>s b k. (None, s)),
     DeleteObjects = (\<lambda>s b ks. (Inr [], s)),
     GeneratePresignedUrl = (\<lambda>s i. (Inr (''https://'' @ ps_Bucket i @ ''.example/'' @ ps_Key i
         @ ''?Expires='' @ itoa (sint (ps_Expires i)) @ ''&Signature=s''), s)),
     CreateMultipartUploadWithContext = (\<lambda>s i. (Inr ''upload-1'', s)),
     AbortMultipartUploadWithContext = (\<lambda>s i. (None, s)),
     time_Now = (\<lambda>s. 0)\<rparr>"

definition head_reports :: "int64 \<Rightarrow> unit s3_api" where
  "head_reports n = quiet_api\<lparr>HeadObjectWithContext :=
     (\<lambda>s b k. (Inr \<lparr>ContentLength = n, ETag = ''e''\<rparr>, s))\<rparr>"

definition demo_policy :: StoragePolicy where
  "demo_policy = \<lparr>BucketName = ''bkt'', IsPrivate = True, ChunkSize = 0, S3DeleteBatchSize = 0\<rparr>"

definition demo_deps :: "unit s3_api \<Rightarrow> unit Driver_deps" where
  "demo_deps api =
     \<lparr>dep_svc = api, dep_ModeOverwrite = 1,
      dep_TypeByName = (\<lambda>n. ''application/octet-stream''),
      dep_MasterSlaveCallbackUrl = (\<lambda>sid sec. ''https://site/cb/'' @ sid @ ''/'' @ sec),
      dep_ThumbSize = (400, 300), dep_ThumbEncodeFormat = ''jpg'', dep_ThumbEncodeQuality = 85,
      dep_url_refused = (\<lambda>s. None), dep_url_PathEscape = (\<lambda>s. s)\<rparr>"

definition demo_driver :: "unit s3_api \<Rightarrow> unit Driver" where
  "demo_driver api = New demo_policy (demo_deps api)"

definition world0 :: "unit world" where
  "world0 = \<lparr>outside = (), trace = []\<rparr>"

definition demo_props :: UploadProps where
  "demo_props = \<lparr>SavePath = ''a.bin'', Size = 100, MimeType = '''', UriName = ''a.bin'',
     UploadSessionID = ''sid'', ExpireAt = 3600000000000\<rparr>"

definition demo_session :: "int64 \<Rightarrow> UploadSession" where
  "demo_session t = \<lparr>Props = demo_props, SentinelTaskID = t, us_ChunkSize = 0, Callback = '''',
     CallbackSecret = ''sec'', UploadID = ''''\<rparr>"

definition public_driver :: "unit s3_api \<Rightarrow> unit Driver" where
  "public_driver api = New (demo_policy\<lparr>IsPrivate := False\<rparr>) (demo_deps api)"

definition demo_request :: "int64 \<Rightarrow> UploadRequest" where
  "demo_request mode = \<lparr>req_Props = demo_props, Mode = mode, Content = [1, 2, 3]\<rparr>"

definition batch_reports :: "DeleteError list \<Rightarrow> unit s3_api" where
  "batch_reports errs = quiet_api\<lparr>DeleteObjects := (\<lambda>s b ks. (Inr errs, s))\<rparr>"

definition single_reports :: "backend_error option \<Rightarrow> unit s3_api" where
  "single_reports r = quiet_api\<lparr>DeleteObjectWithContext := (\<lambda>s b k. (r, s))\<rparr>"

definition chunked_driver :: "unit Driver" where
  "chunked_driver = New (demo_policy\<lparr>ChunkSize := 40\<rparr>) (demo_deps quiet_api)"


text \<open>
  A small file tree and a manager over it. The entity with id 2 cannot be opened and
  the one with id 3 fails while it is read; the archive with entity id 9 cannot be
  decoded.
\<close>

definition demo_file :: "string \<Rightarrow> string \<Rightarrow> int64 \<Rightarrow> int \<Rightarrow> fs_File" where
  "demo_file dir name sz entity =
     FsFile \<lparr>f_Type = FileTypeFile, f_DisplayName = name, f_Uri = dir @ name, f_UriDir = dir,
             f_Ext = ''zip'', f_Size = sz, f_UpdatedAt = 0, f_IsSymbolic = False,
             f_PrimaryEntityID = entity, f_ListError = None\<rparr> []"

definition demo_folder :: "string \<Rightarrow> string \<Rightarrow> fs_File list \<Rightarrow> fs_File" where
  "demo_folder dir name cs =
     FsFile \<lparr>f_Type = FileTypeFolder, f_DisplayName = name, f_Uri = dir @ name, f_UriDir = dir,
             f_Ext = '''', f_Size = 0, f_UpdatedAt = 0, f_IsSymbolic = False,
             f_PrimaryEntityID = 0, f_ListError = None\<rparr> cs"

definition demo_roots :: "(string \<times> fs_File) list" where
  "demo_roots =
     [(''/a'', demo_file ''/'' ''a'' 10 1),
      (''/b'', demo_file ''/'' ''b'' 10 2),
      (''/c'', demo_file ''/'' ''c'' 10 3),
      (''/e'', demo_file ''/'' ''e'' 10 4),
      (''/d'', demo_folder ''/'' ''d'' [demo_file ''/d/'' ''f'' 10 5]),
      (''/z'', demo_file ''/'' ''z'' 10 9)]"

definition demo_manager :: manager where
  "demo_manager =
     \<lparr>fs_Get = (\<lambda>uri. case map_of demo_roots uri of
                          None \<Rightarrow> Inl (OtherError ''not found'') | Some f \<Rightarrow> Inr f),
      m_Get = (\<lambda>uri. case map_of demo_roots uri of
                         None \<Rightarrow> Inl (OtherError ''not found'') | Some f \<Rightarrow> Inr f),
      DecompressSize = 0,
      FindDesiredEntity = (\<lambda>f e. (True, \<lparr>ent_ID = f_PrimaryEntityID (info f),
                                          ent_Size = f_Size (info f)\<rparr>)),
      GetEntitySource = (\<lambda>entity.
         if entity = 2 then Inl (OtherError ''cannot open'')
         else Inr \<lparr>es_Entity = \<lparr>ent_ID = entity, ent_Size = 10\<rparr>, es_Data = [7, 7],
                   es_ReadError = (if entity = 3 then Some (OtherError ''read failed'') else None)\<rparr>),
      zip_NewReader = (\<lambda>es sz.
         if ent_ID (es_Entity es) = 9 then Inl (OtherError ''zip: not a valid zip file'')
         else Inr [\<lparr>am_Name = ''x'', am_Comment = '''', am_NonUTF8 = False, am_Size = 1,
                    am_ModTime = 0, am_IsDir = False\<rparr>]),
      sevenzip_NewReader = (\<lambda>es sz. Inr []),
      decoder_String = (\<lambda>enc s. Inr s),
      FormSlash = (\<lambda>s. s),
      zip_path = (\<lambda>parent name. parent @ name),
      CreateHeader_error = (\<lambda>h. None),
      unicode_ToLower = (\<lambda>s. s)\<rparr>"

definition demo_options :: "int64 \<Rightarrow> archive_options" where
  "demo_options limit = \<lparr>ArchiveCompression = False, DryRun = False, ProgressFunc = False,
                            MaxArchiveSize = limit\<rparr>"

definition state0 :: list_state where
  "state0 = \<lparr>kv = (\<lambda>k. None), events = []\<rparr>"

section \<open>Facts about the driver\<close>

lemmas demo_defs = demo_driver_def public_driver_def demo_deps_def New_def quiet_api_def
  head_reports_def world0_def demo_policy_def demo_props_def demo_session_def demo_request_def
  batch_reports_def single_reports_def chunked_driver_def

lemma Meta_head:
  "Meta handler w path =
     (map_sum id (\<lambda>res. \<lparr>md_Size = ContentLength res, md_Etag = ETag res\<rparr>)
        (fst (HeadObjectWithContext (svc handler) (outside w) (BucketName (policy handler)) path)),
      \<lparr>outside = snd (HeadObjectWithContext (svc handler) (outside w) (BucketName (policy handler)) path),
       trace = trace w @ [CallHeadObject (BucketName (policy handler)) path
          (fst (HeadObjectWithContext (svc handler) (outside w) (BucketName (policy handler)) path))]\<rparr>)"
  by (simp add: Meta_def svc_HeadObject_def split: prod.splits sum.splits)

lemma svc_Presign_eq:
  "svc_Presign api w inp =
     (fst (GeneratePresignedUrl api (outside w) inp),
      \<lparr>outside = snd (GeneratePresignedUrl api (outside w) inp),
       trace = trace w @ [CallPresign inp (fst (GeneratePresignedUrl api (outside w) inp))]\<rparr>)"
  by (simp add: svc_Presign_def split: prod.splits)

lemma presigned_tail:
  "(case (r, w') of
      (Inl err, w') \<Rightarrow> (Inl (Backend err), w')
    | (Inr signedUrl, w') \<Rightarrow>
        (case url_Parse (url_refused handler) signedUrl of
           Inl err \<Rightarrow> (Inl err, w')
         | Inr u \<Rightarrow> (Inr (url_String (if \<not> IsPrivate (policy handler)
                                      then u\<lparr>RawQuery := ''''\<rparr> else u)), w')))
   = (presigned_result handler r, w')"
  by (simp add: presigned_result_def split: sum.splits)

text \<open>
  \<^verbatim>\<open>Source\<close> and \<^verbatim>\<open>Thumb\<close> make one presigning call, a \<^verbatim>\<open>GET\<close> whose time-to-live is
  604800 seconds without an expiry and the truncated seconds until the expiry with one.
\<close>

lemma Source_eq:
  "\<exists>inp. ps_HTTPMethod inp = GET \<and> ps_Key inp = src \<and>
     ps_Expires inp = (case Expire args of
                         Some t \<Rightarrow> Seconds_int64 (time_Until (time_Now (svc handler) (outside w)) t)
                       | None \<Rightarrow> 604800) \<and>
     Source handler w src args =
       (presigned_result handler (fst (GeneratePresignedUrl (svc handler) (outside w) inp)),
        \<lparr>outside = snd (GeneratePresignedUrl (svc handler) (outside w) inp),
         trace = trace w @ [CallPresign inp (fst (GeneratePresignedUrl (svc handler) (outside w) inp))]\<rparr>)"
  unfolding Source_def Let_def svc_Presign_eq presigned_tail
  by (intro exI conjI; (rule refl)?) simp_all

lemma Thumb_eq:
  "\<exists>inp. ps_HTTPMethod inp = GET \<and> take (length src) (ps_Key inp) = src \<and>
     ps_Expires inp = (case expire of
                         Some t \<Rightarrow> Seconds_int64 (time_Until (time_Now (svc handler) (outside w)) t)
                       | None \<Rightarrow> 604800) \<and>
     Thumb handler w expire ext src =
       (presigned_result handler (fst (GeneratePresignedUrl (svc handler) (outside w) inp)),
        \<lparr>outside = snd (GeneratePresignedUrl (svc handler) (outside w) inp),
         trace = trace w @ [CallPresign inp (fst (GeneratePresignedUrl (svc handler) (outside w) inp))]\<rparr>)"
  unfolding Thumb_def Let_def svc_Presign_eq presigned_tail
  by (cases "ThumbSize handler") (simp; intro exI conjI; (rule refl)?; simp)

text \<open>
  The same with the request written out: what \<^verbatim>\<open>Source\<close> and \<^verbatim>\<open>Thumb\<close> return is what
  their last statements make of the presigner's answer to their request.
\<close>

lemma Source_result:
  "Source handler w src args =
     (presigned_result handler
        (fst (GeneratePresignedUrl (svc handler) (outside w) (Source_request handler w src args))),
      \<lparr>outside = snd (GeneratePresignedUrl (svc handler) (outside w) (Source_request handler w src args)),
       trace = trace w @ [CallPresign (Source_request handler w src args)
          (fst (GeneratePresignedUrl (svc handler) (outside w) (Source_request handler w src args)))]\<rparr>)"
  unfolding Source_def Let_def svc_Presign_eq presigned_tail Source_request_def
  by simp

lemma Thumb_result:
  "Thumb handler w expire ext src =
     (presigned_result handler
        (fst (GeneratePresignedUrl (svc handler) (outside w) (Thumb_request handler w expire src))),
      \<lparr>outside = snd (GeneratePresignedUrl (svc handler) (outside w) (Thumb_request handler w expire src)),
       trace = trace w @ [CallPresign (Thumb_request handler w expire src)
          (fst (GeneratePresignedUrl (svc handler) (outside w) (Thumb_request handler w expire src)))]\<rparr>)"
  unfolding Thumb_def Let_def svc_Presign_eq presigned_tail Thumb_request_def Thumb_key_def
  by (cases "ThumbSize handler") simp



lemma quiet_sel:
  "HeadObjectWithContext quiet_api s b k = (Inl (AwsError ''NotFound'' ''''), s)"
  "GeneratePresignedUrl quiet_api s i = (Inr (''https://'' @ ps_Bucket i @ ''.example/'' @ ps_Key i
         @ ''?Expires='' @ itoa (sint (ps_Expires i)) @ ''&Signature=s''), s)"
  "CreateMultipartUploadWithContext quiet_api s c = (Inr ''upload-1'', s)"
  "time_Now quiet_api s = 0"
  by (simp_all add: quiet_api_def)

lemma public_sel:
  "policy (public_driver api) = demo_policy\<lparr>IsPrivate := False\<rparr>"
  "svc (public_driver api) = api"
  "url_refused (public_driver api) s = None"
  "ThumbSize (public_driver api) = (400, 300)"
  "ThumbEncodeFormat (public_driver api) = ''jpg''"
  "ThumbEncodeQuality (public_driver api) = 85"
  by (simp_all add: public_driver_def New_def Let_def demo_deps_def)

lemma demo_sel:
  "policy (demo_driver api) = demo_policy"
  "svc (demo_driver api) = api"
  "url_refused (demo_driver api) s = None"
  "ThumbSize (demo_driver api) = (400, 300)"
  "ThumbEncodeFormat (demo_driver api) = ''jpg''"
  "ThumbEncodeQuality (demo_driver api) = 85"
  by (simp_all add: demo_driver_def New_def Let_def demo_deps_def)

section \<open>Size-verified completion\<close>

lemma Meta_demo_head_reports:
  "Meta (demo_driver (head_reports n)) world0 p =
     (Inr \<lparr>md_Size = n, md_Etag = ''e''\<rparr>,
      \<lparr>outside = (), trace = [CallHeadObject ''bkt'' p (Inr \<lparr>ContentLength = n, ETag = ''e''\<rparr>)]\<rparr>)"
  by (simp add: Meta_head demo_defs)

text \<open>
  C1, as stated, fails. \<^verbatim>\<open>CompleteUpload\<close> opens with the guard
  \<^verbatim>\<open>if session.SentinelTaskID == 0 { return nil }\<close>: for a session without a sentinel task
  it returns success without asking the backend anything. Here the session expects 100
  bytes, the backend would report 99, and the call succeeds with an empty call trace.
\<close>

theorem CompleteUpload_no_sentinel_counterexample:
  "Size (Props (demo_session 0)) = 100 \<and>
   fst (Meta (demo_driver (head_reports 99)) world0 (SavePath (Props (demo_session 0))))
     = Inr \<lparr>md_Size = 99, md_Etag = ''e''\<rparr> \<and>
   CompleteUpload (demo_driver (head_reports 99)) world0 (demo_session 0) = (None, world0)"
  by (simp add: Meta_demo_head_reports CompleteUpload_def demo_session_def demo_props_def)

text \<open>
  C1, amended: for a session whose sentinel task id is not zero, \<^verbatim>\<open>CompleteUpload\<close> makes
  exactly the calls of one \<^verbatim>\<open>Meta\<close> on the session's save path; when that fetch answers with
  a size, the call succeeds exactly when the size equals the session's expected size,
  and a mismatch is the \<open>CodeMetaMismatch\<close> error; when the fetch fails, its error is
  returned wrapped. For a session whose sentinel task id is zero the call succeeds
  without any fetch.
\<close>

theorem CompleteUpload_size_verified:
  "(SentinelTaskID session = 0 \<longrightarrow> CompleteUpload handler w session = (None, w)) \<and>
   (SentinelTaskID session \<noteq> 0 \<longrightarrow>
      snd (CompleteUpload handler w session) = snd (Meta handler w (SavePath (Props session))) \<and>
      (\<forall>res. fst (Meta handler w (SavePath (Props session))) = Inr res \<longrightarrow>
         (fst (CompleteUpload handler w session) = None \<longleftrightarrow> md_Size res = Size (Props session)) \<and>
         (md_Size res \<noteq> Size (Props session) \<longrightarrow>
            (\<exists>msg. fst (CompleteUpload handler w session) = Some (AppError CodeMetaMismatch msg)))) \<and>
      (\<forall>err. fst (Meta handler w (SavePath (Props session))) = Inl err \<longrightarrow>
         fst (CompleteUpload handler w session)
           = Some (Wrapped ''failed to get uploaded file size'' (Backend err))))"
  by (auto simp: CompleteUpload_def split: prod.splits sum.splits)

theorem CompleteUpload_size_verified_witness:
  "fst (CompleteUpload (demo_driver (head_reports 100)) world0 (demo_session 7)) = None \<and>
   fst (CompleteUpload (demo_driver (head_reports 99)) world0 (demo_session 7)) \<noteq> None \<and>
   trace (snd (CompleteUpload (demo_driver (head_reports 99)) world0 (demo_session 7)))
     = [CallHeadObject ''bkt'' ''a.bin'' (Inr \<lparr>ContentLength = 99, ETag = ''e''\<rparr>)]"
  using CompleteUpload_size_verified [of "demo_session 7" "demo_driver (head_reports 100)" world0]
    CompleteUpload_size_verified [of "demo_session 7" "demo_driver (head_reports 99)" world0]
  by (simp add: Meta_demo_head_reports demo_session_def demo_props_def)

section \<open>The duplicate check\<close>

text \<open>
  C4: when the metadata head finds an object at the destination, \<^verbatim>\<open>Put\<close> without the
  overwrite bit and \<^verbatim>\<open>Token\<close> return the file-exists error, and the head is the only call
  they have made: nothing was uploaded, no multipart upload was created, no URL was
  signed, and \<^verbatim>\<open>Token\<close> leaves the session as it was. With the overwrite bit \<^verbatim>\<open>Put\<close> makes
  no head call: its one call is the upload.
\<close>

theorem duplicate_check_precedes_transfer:
  "(fst (HeadObjectWithContext (svc handler) (outside w) (BucketName (policy handler))
           (SavePath (req_Props file))) = Inr obj \<longrightarrow>
      (Mode file AND ModeOverwrite handler \<noteq> ModeOverwrite handler \<longrightarrow>
         fst (Put handler w file) = Some ErrFileExisted \<and>
         trace (snd (Put handler w file))
           = trace w @ [CallHeadObject (BucketName (policy handler)) (SavePath (req_Props file)) (Inr obj)]) \<and>
      fst (Token handler w uploadSession file) = Inl ErrFileExisted \<and>
      fst (snd (Token handler w uploadSession file)) = uploadSession \<and>
      trace (snd (snd (Token handler w uploadSession file)))
        = trace w @ [CallHeadObject (BucketName (policy handler)) (SavePath (req_Props file)) (Inr obj)]) \<and>
   (Mode file AND ModeOverwrite handler = ModeOverwrite handler \<longrightarrow>
      (\<exists>inp r. trace (snd (Put handler w file)) = trace w @ [CallUpload inp r] \<and>
         up_Key inp = SavePath (req_Props file) \<and>
         fst (Put handler w file) = map_option Backend r))"
  apply (intro conjI impI)
       apply (simp_all add: Put_def Token_def Meta_head Let_def svc_Upload_def
                split: prod.splits option.splits)
  done

lemma demo_head_exists:
  "fst (HeadObjectWithContext (svc (demo_driver (head_reports 5))) (outside world0)
          (BucketName (policy (demo_driver (head_reports 5)))) (SavePath (req_Props (demo_request m))))
     = Inr \<lparr>ContentLength = 5, ETag = ''e''\<rparr>"
  by (simp add: demo_defs)

lemma demo_mode_bits:
  "Mode (demo_request 0) AND ModeOverwrite (demo_driver api) \<noteq> ModeOverwrite (demo_driver api)"
  "Mode (demo_request 1) AND ModeOverwrite (demo_driver api) = ModeOverwrite (demo_driver api)"
  by (simp_all add: demo_defs)

theorem duplicate_check_precedes_transfer_witness:
  "fst (Put (demo_driver (head_reports 5)) world0 (demo_request 0)) = Some ErrFileExisted \<and>
   trace (snd (Put (demo_driver (head_reports 5)) world0 (demo_request 0)))
     = [CallHeadObject ''bkt'' ''a.bin'' (Inr \<lparr>ContentLength = 5, ETag = ''e''\<rparr>)] \<and>
   fst (Token (demo_driver (head_reports 5)) world0 (demo_session 7) (demo_request 0))
     = Inl ErrFileExisted \<and>
   trace (snd (snd (Token (demo_driver (head_reports 5)) world0 (demo_session 7) (demo_request 0))))
     = [CallHeadObject ''bkt'' ''a.bin'' (Inr \<lparr>ContentLength = 5, ETag = ''e''\<rparr>)] \<and>
   (\<exists>inp r. trace (snd (Put (demo_driver (head_reports 5)) world0 (demo_request 1)))
              = [CallUpload inp r])"
proof -
  let ?D = "demo_driver (head_reports 5)"
  let ?obj = "\<lparr>ContentLength = 5, ETag = ''e''\<rparr>"
  have bucket: "BucketName (policy ?D) = ''bkt''"
    and path: "SavePath (req_Props (demo_request m)) = ''a.bin''"
    and tr: "trace world0 = []" for m
    by (simp_all add: demo_defs)
  have a: "fst (Put ?D world0 (demo_request 0)) = Some ErrFileExisted \<and>
      trace (snd (Put ?D world0 (demo_request 0)))
        = trace world0 @ [CallHeadObject (BucketName (policy ?D)) (SavePath (req_Props (demo_request 0))) (Inr ?obj)] \<and>
      fst (Token ?D world0 (demo_session 7) (demo_request 0)) = Inl ErrFileExisted \<and>
      trace (snd (snd (Token ?D world0 (demo_session 7) (demo_request 0))))
        = trace world0 @ [CallHeadObject (BucketName (policy ?D)) (SavePath (req_Props (demo_request 0))) (Inr ?obj)]"
    using duplicate_check_precedes_transfer [of ?D world0 "demo_request 0" ?obj "demo_session 7"]
      demo_head_exists [of 0] demo_mode_bits(1) [of "head_reports 5"]
    by blast
  have b: "\<exists>inp r. trace (snd (Put ?D world0 (demo_request 1))) = trace world0 @ [CallUpload inp r]"
    using duplicate_check_precedes_transfer [of ?D world0 "demo_request 1" ?obj "demo_session 7"]
      demo_mode_bits(2) [of "head_reports 5"]
    by blast
  from a b show ?thesis
    by (simp add: bucket path tr)
qed

section \<open>The time-to-live of signed URLs\<close>

lemma presign_ttls_snoc:
  "presign_ttls (tr @ [CallPresign inp r]) = presign_ttls tr @ [sint (ps_Expires inp)]"
  by (simp add: presign_ttls_def)

text \<open>
  What holds of C6: \<^verbatim>\<open>Source\<close> and \<^verbatim>\<open>Thumb\<close> presign once, with 604800 seconds when no
  expiry is given and with the seconds from now to the expiry when one is.
\<close>

lemma Source_ttl:
  "presign_ttls (trace (snd (Source handler w src args))) =
     presign_ttls (trace w) @
       [sint (case Expire args of
                None \<Rightarrow> 604800
              | Some t \<Rightarrow> Seconds_int64 (time_Until (time_Now (svc handler) (outside w)) t))]"
proof -
  obtain inp where "ps_Expires inp = (case Expire args of
                         Some t \<Rightarrow> Seconds_int64 (time_Until (time_Now (svc handler) (outside w)) t)
                       | None \<Rightarrow> 604800)"
    and "Source handler w src args =
       (presigned_result handler (fst (GeneratePresignedUrl (svc handler) (outside w) inp)),
        \<lparr>outside = snd (GeneratePresignedUrl (svc handler) (outside w) inp),
         trace = trace w @ [CallPresign inp (fst (GeneratePresignedUrl (svc handler) (outside w) inp))]\<rparr>)"
    using Source_eq [where handler=handler and w=w and src=src and args=args] by blast
  then show ?thesis
    by (simp add: presign_ttls_snoc split: option.splits)
qed

lemma Thumb_ttl:
  "presign_ttls (trace (snd (Thumb handler w expire ext src))) =
     presign_ttls (trace w) @
       [sint (case expire of
                None \<Rightarrow> 604800
              | Some t \<Rightarrow> Seconds_int64 (time_Until (time_Now (svc handler) (outside w)) t))]"
proof -
  obtain inp where "ps_Expires inp = (case expire of
                         Some t \<Rightarrow> Seconds_int64 (time_Until (time_Now (svc handler) (outside w)) t)
                       | None \<Rightarrow> 604800)"
    and "Thumb handler w expire ext src =
       (presigned_result handler (fst (GeneratePresignedUrl (svc handler) (outside w) inp)),
        \<lparr>outside = snd (GeneratePresignedUrl (svc handler) (outside w) inp),
         trace = trace w @ [CallPresign inp (fst (GeneratePresignedUrl (svc handler) (outside w) inp))]\<rparr>)"
    using Thumb_eq [where handler=handler and w=w and src=src and expire=expire and ext=ext] by blast
  then show ?thesis
    by (simp add: presign_ttls_snoc split: option.splits)
qed

lemma ttl_past: "sint (Seconds_int64 (time_Until 0 (- 10000000000))) = - 10"
  by (simp add: time_Until_def Seconds_int64_def)

lemma demo_now: "time_Now (svc (demo_driver quiet_api)) (outside world0) = 0"
  by (simp add: demo_defs)

text \<open>
  C6, the part the code misses. Both functions carry the comment that the time-to-live
  must not be below 0 and is set to 7 days if it is, and neither does it: the value
  computed from the expiry is passed on as it is. With the clock at 0 and an expiry 10
  seconds in the past, both presign with a time-to-live of -10 seconds.
\<close>

theorem Source_Thumb_negative_ttl:
  "presign_ttls (trace (snd (Source (demo_driver quiet_api) world0 ''k''
       \<lparr>IsDownload = False, DisplayName = '''', Expire = Some (- 10000000000)\<rparr>))) = [- 10] \<and>
   presign_ttls (trace (snd (Thumb (demo_driver quiet_api) world0 (Some (- 10000000000)) ''jpg'' ''k'')))
     = [- 10]"
  unfolding Source_ttl Thumb_ttl demo_now
  by (simp add: ttl_past) (simp add: world0_def presign_ttls_def)

section \<open>Public policies return unsigned URLs\<close>

lemma strings_Cut_sep:
  "sep \<notin> set a \<Longrightarrow> strings_Cut (a @ sep # b) sep = (a, b)"
  by (induction a) (auto simp: strings_Cut_def)

lemma strings_Cut_none:
  "sep \<notin> set a \<Longrightarrow> strings_Cut a sep = (a, [])"
  by (induction a) (auto simp: strings_Cut_def)

lemma url_Parse_query:
  assumes "CHR ''?'' \<notin> set base" "CHR ''#'' \<notin> set base" "CHR ''#'' \<notin> set query" "query \<noteq> []"
    and "refused (base @ ''?'' @ query) = None"
  shows "url_Parse refused (base @ ''?'' @ query)
     = Inr \<lparr>Base = base, RawQuery = query, ForceQuery = False, Fragment = []\<rparr>"
proof -
  have c: "strings_Cut (base @ ''?'' @ query) (CHR ''#'') = (base @ ''?'' @ query, [])"
    using assms(2,3) by (intro strings_Cut_none) simp
  have q: "strings_Cut (base @ ''?'' @ query) (CHR ''?'') = (base, query)"
    using assms(1) strings_Cut_sep [of "CHR ''?''" base query] by simp
  have n: "\<not> (last (base @ ''?'' @ query) = CHR ''?'' \<and> count_list (base @ ''?'' @ query) (CHR ''?'') = 1)"
  proof
    assume a: "last (base @ ''?'' @ query) = CHR ''?'' \<and> count_list (base @ ''?'' @ query) (CHR ''?'') = 1"
    with assms(4) have "last query = CHR ''?''" by simp
    with assms(4) have "CHR ''?'' \<in> set query" using last_in_set by metis
    then have "count_list query (CHR ''?'') \<noteq> 0" by (simp add: count_list_0_iff)
    with a show False by simp
  qed
  show ?thesis
    unfolding url_Parse_def assms(5) c using n q by simp
qed

lemma presigned_result_query:
  assumes "CHR ''?'' \<notin> set base" "CHR ''#'' \<notin> set base" "CHR ''#'' \<notin> set query" "query \<noteq> []"
    and "url_refused handler (base @ ''?'' @ query) = None"
  shows "presigned_result handler (Inr (base @ ''?'' @ query))
     = Inr (if IsPrivate (policy handler) then base @ ''?'' @ query else base)"
proof -
  have "url_Parse (url_refused handler) (base @ CHR ''?'' # query)
      = Inr \<lparr>Base = base, RawQuery = query, ForceQuery = False, Fragment = []\<rparr>"
    using url_Parse_query [where refused="url_refused handler", OF assms] by simp
  with assms(4) show ?thesis
    by (simp add: presigned_result_def url_String_def)
qed

text \<open>
  C10: take a presigned URL of the usual shape, a base without \<^verbatim>\<open>?\<close> or \<^verbatim>\<open>#\<close>, then \<^verbatim>\<open>?\<close> and
  a query that is not empty and has no \<^verbatim>\<open>#\<close>, which the parser does not refuse. When that is
  the presigner's answer to the request of \<^verbatim>\<open>Source\<close>, a driver whose policy is not private
  returns the base alone: the whole query, and with it the signature and the expiry, is
  gone. A driver whose policy is private returns the presigned URL as it is. The same
  holds of \<^verbatim>\<open>Thumb\<close> and the answer to its request.
\<close>

theorem public_policy_strips_query:
  assumes "CHR ''?'' \<notin> set base" "CHR ''#'' \<notin> set base" "CHR ''#'' \<notin> set query" "query \<noteq> []"
    and "url_refused handler (base @ ''?'' @ query) = None"
  shows
  "(fst (GeneratePresignedUrl (svc handler) (outside w) (Source_request handler w src args))
       = Inr (base @ ''?'' @ query) \<longrightarrow>
      fst (Source handler w src args)
        = Inr (if IsPrivate (policy handler) then base @ ''?'' @ query else base)) \<and>
   (fst (GeneratePresignedUrl (svc handler) (outside w) (Thumb_request handler w expire src))
       = Inr (base @ ''?'' @ query) \<longrightarrow>
      fst (Thumb handler w expire ext src)
        = Inr (if IsPrivate (policy handler) then base @ ''?'' @ query else base))"
  using presigned_result_query [OF assms]
  by (simp add: Source_result Thumb_result)

lemma itoa_small: "itoa 604800 = ''604800''" "itoa 400 = ''400''" "itoa 300 = ''300''" "itoa 85 = ''85''"
  by (simp_all add: itoa_def nat_digits.simps digit_char_def)

lemma demo_presign:
  "fst (GeneratePresignedUrl quiet_api (outside world0)
         (Source_request (public_driver quiet_api) world0 ''k''
            \<lparr>IsDownload = False, DisplayName = [], Expire = None\<rparr>))
     = Inr (''https://bkt.example/k'' @ ''?'' @ ''Expires=604800&Signature=s'')"
  "fst (GeneratePresignedUrl quiet_api (outside world0)
         (Thumb_request (public_driver quiet_api) world0 None ''k''))
     = Inr (''https://bkt.example/k@base@tag=imgScale&m=0&w=400&h=300&q=85&F=jpg'' @ ''?''
              @ ''Expires=604800&Signature=s'')"
  "fst (GeneratePresignedUrl quiet_api (outside world0)
         (Source_request (demo_driver quiet_api) world0 ''k''
            \<lparr>IsDownload = False, DisplayName = [], Expire = None\<rparr>))
     = Inr (''https://bkt.example/k'' @ ''?'' @ ''Expires=604800&Signature=s'')"
  "fst (GeneratePresignedUrl quiet_api (outside world0)
         (Thumb_request (demo_driver quiet_api) world0 None ''k''))
     = Inr (''https://bkt.example/k@base@tag=imgScale&m=0&w=400&h=300&q=85&F=jpg'' @ ''?''
              @ ''Expires=604800&Signature=s'')"
  by (simp_all add: quiet_sel Source_request_def Thumb_request_def Thumb_key_def public_sel demo_sel
        demo_policy_def itoa_small)

text \<open>
  Under the public policy \<^verbatim>\<open>Source\<close> and \<^verbatim>\<open>Thumb\<close> return the URL up to the query, under
  the private one the URL with \<^verbatim>\<open>Expires\<close> and \<^verbatim>\<open>Signature\<close>.
\<close>

theorem public_policy_strips_query_witness:
  "fst (Source (public_driver quiet_api) world0 ''k''
          \<lparr>IsDownload = False, DisplayName = [], Expire = None\<rparr>) = Inr ''https://bkt.example/k'' \<and>
   fst (Thumb (public_driver quiet_api) world0 None ''jpg'' ''k'')
     = Inr ''https://bkt.example/k@base@tag=imgScale&m=0&w=400&h=300&q=85&F=jpg'' \<and>
   \<not> IsPrivate (policy (public_driver quiet_api)) \<and>
   fst (Source (demo_driver quiet_api) world0 ''k''
          \<lparr>IsDownload = False, DisplayName = [], Expire = None\<rparr>)
     = Inr ''https://bkt.example/k?Expires=604800&Signature=s'' \<and>
   fst (Thumb (demo_driver quiet_api) world0 None ''jpg'' ''k'')
     = Inr ''https://bkt.example/k@base@tag=imgScale&m=0&w=400&h=300&q=85&F=jpg?Expires=604800&Signature=s'' \<and>
   IsPrivate (policy (demo_driver quiet_api))"
proof -
  let ?a = "\<lparr>IsDownload = False, DisplayName = [], Expire = None\<rparr>"
  let ?b = "''https://bkt.example/k''"
  let ?t = "''https://bkt.example/k@base@tag=imgScale&m=0&w=400&h=300&q=85&F=jpg''"
  let ?q = "''Expires=604800&Signature=s''"
  have pol: "\<not> IsPrivate (policy (public_driver quiet_api))" "IsPrivate (policy (demo_driver quiet_api))"
    by (simp_all add: public_sel demo_sel demo_policy_def)
  have s1: "fst (Source (public_driver quiet_api) world0 ''k'' ?a) = Inr ?b"
    using public_policy_strips_query
      [where base="?b" and query="?q" and handler="public_driver quiet_api" and w=world0
         and src="''k''" and args="?a"]
    by (simp add: public_sel demo_policy_def demo_presign [simplified])
  have t1: "fst (Thumb (public_driver quiet_api) world0 None ''jpg'' ''k'') = Inr ?t"
    using public_policy_strips_query
      [where base="?t" and query="?q" and handler="public_driver quiet_api" and w=world0
         and src="''k''" and expire=None and ext="''jpg''"]
    by (simp add: public_sel demo_policy_def demo_presign [simplified])
  have s2: "fst (Source (demo_driver quiet_api) world0 ''k'' ?a) = Inr (?b @ ''?'' @ ?q)"
    using public_policy_strips_query
      [where base="?b" and query="?q" and handler="demo_driver quiet_api" and w=world0
         and src="''k''" and args="?a"]
    by (simp add: demo_sel demo_policy_def demo_presign [simplified])
  have t2: "fst (Thumb (demo_driver quiet_api) world0 None ''jpg'' ''k'') = Inr (?t @ ''?'' @ ?q)"
    using public_policy_strips_query
      [where base="?t" and query="?q" and handler="demo_driver quiet_api" and w=world0
         and src="''k''" and expire=None and ext="''jpg''"]
    by (simp add: demo_sel demo_policy_def demo_presign [simplified])
  from s1 t1 s2 t2 pol show ?thesis
    by simp
qed

section \<open>Batched deletion\<close>

lemma concat_chunks_of: "0 < n \<Longrightarrow> concat (chunks_of n xs) = xs"
proof (induction n xs rule: chunks_of.induct)
  case (1 n xs)
  then show ?case
    by (subst chunks_of.simps) simp
qed

lemma chunks_of_lengths:
  "0 < n \<Longrightarrow> g \<in> set (chunks_of n xs) \<Longrightarrow> 0 < length g \<and> length g \<le> n"
proof (induction n xs rule: chunks_of.induct)
  case (1 n xs)
  show ?case
  proof (cases "xs = []")
    case True
    with "1.prems" show ?thesis by (simp add: chunks_of.simps)
  next
    case False
    with "1.prems" have "g = take n xs \<or> g \<in> set (chunks_of n (drop n xs))"
      by (subst (asm) chunks_of.simps) auto
    then show ?thesis
    proof
      assume "g = take n xs"
      with False "1.prems"(1) show ?thesis by (cases xs) auto
    next
      assume "g \<in> set (chunks_of n (drop n xs))"
      with "1.IH" False "1.prems"(1) show ?thesis by simp
    qed
  qed
qed

text \<open>One pass of the loop body makes one call, for the keys of its group.\<close>

lemma Delete_group_step:
  assumes "Delete_group handler (fl, lastErr, w) g = (fl', lastErr', w')"
  shows "\<exists>c. trace w' = trace w @ [c] \<and> requested_keys c = (if length g = 1 then [hd g] else g) \<and>
         fl' = fl @ failed_keys c \<and>
         lastErr' = (case call_error c of Some e \<Rightarrow> Some e | None \<Rightarrow> lastErr) \<and>
         (case c of CallDeleteObject b k r \<Rightarrow> length g = 1
                  | CallDeleteObjects b ks r \<Rightarrow> length g \<noteq> 1 \<and> ks = g
                  | _ \<Rightarrow> False)"
proof (cases "length g = 1")
  case True
  obtain r s where r: "DeleteObjectWithContext (svc handler) (outside w) (BucketName (policy handler)) (hd g) = (r, s)"
    by (cases "DeleteObjectWithContext (svc handler) (outside w) (BucketName (policy handler)) (hd g)") auto
  show ?thesis
  proof (rule exI [of _ "CallDeleteObject (BucketName (policy handler)) (hd g) r"])
    show "trace w' = trace w @ [CallDeleteObject (BucketName (policy handler)) (hd g) r] \<and>
      requested_keys (CallDeleteObject (BucketName (policy handler)) (hd g) r) = (if length g = 1 then [hd g] else g) \<and>
      fl' = fl @ failed_keys (CallDeleteObject (BucketName (policy handler)) (hd g) r) \<and>
      lastErr' = (case call_error (CallDeleteObject (BucketName (policy handler)) (hd g) r) of Some e \<Rightarrow> Some e | None \<Rightarrow> lastErr) \<and>
      (case CallDeleteObject (BucketName (policy handler)) (hd g) r of CallDeleteObject b k r \<Rightarrow> length g = 1
                  | CallDeleteObjects b ks r \<Rightarrow> length g \<noteq> 1 \<and> ks = g
                  | _ \<Rightarrow> False)"
      using assms True r
      by (cases r; (cases "the r")?)
         (auto simp: Delete_group_def svc_DeleteObject_def split: if_splits)
  qed
next
  case False
  obtain r s where r: "DeleteObjects (svc handler) (outside w) (BucketName (policy handler)) g = (r, s)"
    by (cases "DeleteObjects (svc handler) (outside w) (BucketName (policy handler)) g") auto
  show ?thesis
  proof (rule exI [of _ "CallDeleteObjects (BucketName (policy handler)) g r"])
    show "trace w' = trace w @ [CallDeleteObjects (BucketName (policy handler)) g r] \<and>
      requested_keys (CallDeleteObjects (BucketName (policy handler)) g r) = (if length g = 1 then [hd g] else g) \<and>
      fl' = fl @ failed_keys (CallDeleteObjects (BucketName (policy handler)) g r) \<and>
      lastErr' = (case call_error (CallDeleteObjects (BucketName (policy handler)) g r) of Some e \<Rightarrow> Some e | None \<Rightarrow> lastErr) \<and>
      (case CallDeleteObjects (BucketName (policy handler)) g r of CallDeleteObject b k r \<Rightarrow> length g = 1
                  | CallDeleteObjects b ks r \<Rightarrow> length g \<noteq> 1 \<and> ks = g
                  | _ \<Rightarrow> False)"
      using assms False r
      by (cases r) (auto simp: Delete_group_def svc_DeleteObjects_def)
  qed
qed

lemma hd_single: "length g = 1 \<Longrightarrow> [hd g] = g"
  by (cases g) auto

text \<open>The whole loop: one call per group, in order, whatever the answers are.\<close>

lemma Delete_groups_trace:
  "foldl (Delete_group handler) (fl, lastErr, w) groups = (fl', lastErr', w') \<Longrightarrow>
     \<exists>calls. trace w' = trace w @ calls \<and> map requested_keys calls = groups \<and>
       fl' = fl @ concat (map failed_keys calls) \<and>
       lastErr' = last_error lastErr calls \<and>
       (\<forall>i < length calls. case calls ! i of
             CallDeleteObject b k r \<Rightarrow> length (groups ! i) = 1
           | CallDeleteObjects b ks r \<Rightarrow> length (groups ! i) \<noteq> 1
           | _ \<Rightarrow> False)"
proof (induction groups arbitrary: fl lastErr w)
  case Nil
  then show ?case by (simp add: last_error_def)
next
  case (Cons g groups)
  obtain f1 e1 w1 where step: "Delete_group handler (fl, lastErr, w) g = (f1, e1, w1)"
    by (cases "Delete_group handler (fl, lastErr, w) g") auto
  from Delete_group_step [OF step] obtain c where c:
    "trace w1 = trace w @ [c]" "requested_keys c = (if length g = 1 then [hd g] else g)"
    "f1 = fl @ failed_keys c"
    "e1 = (case call_error c of Some e \<Rightarrow> Some e | None \<Rightarrow> lastErr)"
    "(case c of CallDeleteObject b k r \<Rightarrow> length g = 1
                  | CallDeleteObjects b ks r \<Rightarrow> length g \<noteq> 1 \<and> ks = g
                  | _ \<Rightarrow> False)"
    by blast
  from Cons.prems step have "foldl (Delete_group handler) (f1, e1, w1) groups = (fl', lastErr', w')"
    by simp
  from Cons.IH [OF this] obtain calls where calls:
    "trace w' = trace w1 @ calls" "map requested_keys calls = groups"
    "fl' = f1 @ concat (map failed_keys calls)"
    "lastErr' = last_error e1 calls"
    "\<forall>i < length calls. case calls ! i of
             CallDeleteObject b k r \<Rightarrow> length (groups ! i) = 1
           | CallDeleteObjects b ks r \<Rightarrow> length (groups ! i) \<noteq> 1
           | _ \<Rightarrow> False"
    by blast
  have rk: "requested_keys c = g"
    using c(2) by (simp add: hd_single)
  have shape: "\<forall>i < length (c # calls). case (c # calls) ! i of
             CallDeleteObject b k r \<Rightarrow> length ((g # groups) ! i) = 1
           | CallDeleteObjects b ks r \<Rightarrow> length ((g # groups) ! i) \<noteq> 1
           | _ \<Rightarrow> False"
  proof (intro allI impI)
    fix i assume "i < length (c # calls)"
    then show "case (c # calls) ! i of
             CallDeleteObject b k r \<Rightarrow> length ((g # groups) ! i) = 1
           | CallDeleteObjects b ks r \<Rightarrow> length ((g # groups) ! i) \<noteq> 1
           | _ \<Rightarrow> False"
      using c(5) calls(5) by (cases i) (auto split: s3_exchange.splits)
  qed
  show ?case
    apply (rule exI [of _ "c # calls"])
    using c(1,3,4) calls(1-4) rk shape
    by (simp add: last_error_def)
qed

lemma Delete_Inr:
  assumes "Delete handler w files = (Inr (fl, lastErr), w')"
  shows "\<exists>n. 0 < n \<and> sint (if S3DeleteBatchSize (policy handler) = 0 then 1000
                        else S3DeleteBatchSize (policy handler)) = int n \<and>
           foldl (Delete_group handler) ([], None, w) (chunks_of n files) = (fl, lastErr, w')"
proof -
  let ?b = "sint (if S3DeleteBatchSize (policy handler) = 0 then 1000
                        else S3DeleteBatchSize (policy handler))"
  from assms have pos: "0 < ?b"
    by (auto simp: Delete_def lo_Chunk_def Let_def split: if_splits)
  with assms have "foldl (Delete_group handler) ([], None, w) (chunks_of (nat ?b) files) = (fl, lastErr, w')"
    by (auto simp: Delete_def lo_Chunk_def Let_def split: if_splits prod.splits)
  with pos show ?thesis
    by (intro exI [of _ "nat ?b"]) simp
qed

text \<open>
  What holds of every \<^verbatim>\<open>Delete\<close> that returns: it has made one call per group of at most
  batch-size keys (1000 when the policy leaves the size 0), a single delete for a group of
  one key and a batch delete otherwise, and the calls together ask for exactly the given
  keys, in order: no answer stops the later groups. The returned list is what the answers
  make of it (\<open>failed_keys\<close>), the returned error is that of the last call that failed
  (\<open>last_error\<close>).
\<close>

lemma Delete_calls_and_failures:
  "Delete handler w files = (Inr (fl, lastErr), w') \<longrightarrow>
     (\<exists>calls n.
        trace w' = trace w @ calls \<and>
        int n = sint (if S3DeleteBatchSize (policy handler) = 0 then 1000
                      else S3DeleteBatchSize (policy handler)) \<and>
        list_all (is_delete_call n) calls \<and>
        concat (map requested_keys calls) = files \<and>
        fl = concat (map failed_keys calls) \<and>
        lastErr = last_error None calls)"
proof
  assume d: "Delete handler w files = (Inr (fl, lastErr), w')"
  from Delete_Inr [OF d] obtain n where n: "0 < n"
    "sint (if S3DeleteBatchSize (policy handler) = 0 then 1000
                        else S3DeleteBatchSize (policy handler)) = int n"
    "foldl (Delete_group handler) ([], None, w) (chunks_of n files) = (fl, lastErr, w')"
    by blast
  from Delete_groups_trace [OF n(3)] obtain calls where calls:
    "trace w' = trace w @ calls" "map requested_keys calls = chunks_of n files"
    "fl = [] @ concat (map failed_keys calls)"
    "lastErr = last_error None calls"
    "\<forall>i < length calls. case calls ! i of
             CallDeleteObject b k r \<Rightarrow> length (chunks_of n files ! i) = 1
           | CallDeleteObjects b ks r \<Rightarrow> length (chunks_of n files ! i) \<noteq> 1
           | _ \<Rightarrow> False"
    by blast
  have len: "length calls = length (chunks_of n files)"
    using calls(2) by (metis length_map)
  have "is_delete_call n c" if c: "c \<in> set calls" for c
  proof -
    from c obtain i where i: "i < length calls" "calls ! i = c"
      by (auto simp: in_set_conv_nth)
    have g: "chunks_of n files ! i = requested_keys c"
      using calls(2) i by (metis nth_map)
    have "chunks_of n files ! i \<in> set (chunks_of n files)"
      using i(1) len by simp
    from chunks_of_lengths [OF n(1) this]
    have bounds: "0 < length (requested_keys c)" "length (requested_keys c) \<le> n"
      by (simp_all add: g)
    from calls(5) i have "case c of
             CallDeleteObject b k r \<Rightarrow> length (chunks_of n files ! i) = 1
           | CallDeleteObjects b ks r \<Rightarrow> length (chunks_of n files ! i) \<noteq> 1
           | _ \<Rightarrow> False"
      by auto
    with bounds g show ?thesis
      by (cases c) (auto intro!: Suc_lessI)
  qed
  then have all: "list_all (is_delete_call n) calls"
    by (simp add: list_all_iff)
  have "concat (map requested_keys calls) = files"
    using calls(2) concat_chunks_of [OF n(1)] by simp
  with calls(1,3,4) all n(2) show "\<exists>calls n.
        trace w' = trace w @ calls \<and>
        int n = sint (if S3DeleteBatchSize (policy handler) = 0 then 1000
                      else S3DeleteBatchSize (policy handler)) \<and>
        list_all (is_delete_call n) calls \<and>
        concat (map requested_keys calls) = files \<and>
        fl = concat (map failed_keys calls) \<and>
        lastErr = last_error None calls"
    by (intro exI [of _ calls] exI [of _ n]) simp
qed

text \<open>
  C5, where the code misses it. The single-delete branch carries the comment
  \<^verbatim>\<open>Ignore NoSuchKey error\<close> and does so: deleting the one absent key \<open>gone\<close> returns no failed
  key and no error. The batch branch takes the per-key errors of the answer as they
  come: it appends every key to the failed list without looking at the code, and it
  never sets the returned error. So a batch answer that lists key \<open>a\<close> as \<^verbatim>\<open>NoSuchKey\<close>
  makes \<^verbatim>\<open>Delete\<close> return \<open>a\<close> as failed, and whatever the code (\<^verbatim>\<open>AccessDenied\<close> here) the
  failed key comes with a \<^verbatim>\<open>nil\<close> error.
\<close>

theorem Delete_batch_per_key_errors:
  "Delete (demo_driver (batch_reports [\<lparr>de_Key = ''a'', de_Code = ''NoSuchKey'', de_Message = ''''\<rparr>]))
      world0 [''a'', ''b'']
   = (Inr ([''a''], None),
      \<lparr>outside = (), trace = [CallDeleteObjects ''bkt'' [''a'', ''b'']
         (Inr [\<lparr>de_Key = ''a'', de_Code = ''NoSuchKey'', de_Message = ''''\<rparr>])]\<rparr>) \<and>
   Delete (demo_driver (single_reports (Some (AwsError ''NoSuchKey'' '''')))) world0 [''gone'']
   = (Inr ([], None),
      \<lparr>outside = (), trace = [CallDeleteObject ''bkt'' ''gone'' (Some (AwsError ''NoSuchKey'' ''''))]\<rparr>) \<and>
   Delete (demo_driver (batch_reports [\<lparr>de_Key = ''a'', de_Code = ''AccessDenied'', de_Message = ''''\<rparr>]))
      world0 [''a'', ''b'']
   = (Inr ([''a''], None),
      \<lparr>outside = (), trace = [CallDeleteObjects ''bkt'' [''a'', ''b'']
         (Inr [\<lparr>de_Key = ''a'', de_Code = ''AccessDenied'', de_Message = ''''\<rparr>])]\<rparr>)"
proof -
  have batch: "Delete (demo_driver (batch_reports errs)) world0 [''a'', ''b'']
     = (Inr (map de_Key errs, None),
        \<lparr>outside = (), trace = [CallDeleteObjects ''bkt'' [''a'', ''b''] (Inr errs)]\<rparr>)" for errs
    by (simp add: Delete_def lo_Chunk_def chunks_of.simps Delete_group_def svc_DeleteObjects_def demo_defs)
  have single: "Delete (demo_driver (single_reports (Some (AwsError ''NoSuchKey'' '''')))) world0 [''gone'']
     = (Inr ([], None),
        \<lparr>outside = (), trace = [CallDeleteObject ''bkt'' ''gone'' (Some (AwsError ''NoSuchKey'' ''''))]\<rparr>)"
    by (simp add: Delete_def lo_Chunk_def chunks_of.simps Delete_group_def svc_DeleteObject_def demo_defs
        ErrCodeNoSuchKey_def)
  show ?thesis
    by (simp add: batch single)
qed

section \<open>Upload credentials\<close>

lemma is_part_url_mono: "is_part_url tr key uid n url \<Longrightarrow> is_part_url (tr @ tr') key uid n url"
  by (simp add: is_part_url_def list_ex_iff) blast


















section \<open>Facts about archive creation\<close>

text \<open>
  What one file does to the state: the failure counter goes up by one exactly when
  its read or compression fails, the byte counter by its nominal size, and its entries are
  appended to the archive.
\<close>

lemma compress_sel:
  "(fst (compressFileToArchive m p f (ArchiveCompression opt) (DryRun opt) st) \<noteq> None)
     = read_fails m opt (p, f)"
  "entries (snd (compressFileToArchive m p f (ArchiveCompression opt) (DryRun opt) st))
     = entries st @ written m opt (p, f)"
  "failed (snd (compressFileToArchive m p f c d st)) = failed st"
  "compressed (snd (compressFileToArchive m p f c d st)) = compressed st"
  by (simp_all add: compressFileToArchive_def Let_def io_Copy_def read_fails_def written_def
      zip_header_def split: sum.splits option.splits)

lemma archive_file_sel:
  "failed (archive_file m opt p f st) = failed st + (if read_fails m opt (p, f) then 1 else 0)"
  "compressed (archive_file m opt p f st) = compressed st + f_Size f"
  "entries (archive_file m opt p f st) = entries st @ written m opt (p, f)"
proof -
  obtain err st1 where c: "compressFileToArchive m p f (ArchiveCompression opt) (DryRun opt) st = (err, st1)"
    by (cases "compressFileToArchive m p f (ArchiveCompression opt) (DryRun opt) st") auto
  from c have e: "(err \<noteq> None) = read_fails m opt (p, f)"
    using compress_sel(1) [of m p f opt st] by simp
  from c have s: "entries st1 = entries st @ written m opt (p, f)" "failed st1 = failed st"
    "compressed st1 = compressed st"
    using compress_sel(2) [of m p f opt st]
      compress_sel(3,4) [of m p f "ArchiveCompression opt" "DryRun opt" st]
    by simp_all
  show "failed (archive_file m opt p f st) = failed st + (if read_fails m opt (p, f) then 1 else 0)"
    "compressed (archive_file m opt p f st) = compressed st + f_Size f"
    "entries (archive_file m opt p f st) = entries st @ written m opt (p, f)"
    using c e s by (simp_all add: archive_file_def Let_def)
qed

text \<open>The counter of failures is carried along: a file is treated the same whatever it holds.\<close>

lemma archive_file_failed:
  "archive_file m opt p f (st\<lparr>failed := failed st + n\<rparr>)
     = (archive_file m opt p f st)\<lparr>failed := failed (archive_file m opt p f st) + n\<rparr>"
  by (simp add: archive_file_def compressFileToArchive_def Let_def io_Copy_def
      split: sum.splits option.splits list.splits)

lemma archive_all_simps:
  "archive_all m opt [] st = st"
  "archive_all m opt (x # xs) st = archive_all m opt xs (archive_file m opt (fst x) (snd x) st)"
  "archive_all m opt (xs @ ys) st = archive_all m opt ys (archive_all m opt xs st)"
  by (simp_all add: archive_all_def)

lemma archive_all_sel:
  "failed (archive_all m opt xs st) = failed st + int (length (filter (read_fails m opt) xs))"
  "entries (archive_all m opt xs st) = entries st @ concat (map (written m opt) xs)"
  by (induction xs arbitrary: st) (simp_all add: archive_all_simps archive_file_sel)

lemma ceiling_crossed_append:
  "ceiling_crossed opt c (xs @ ys) =
     (ceiling_crossed opt c xs \<or> ceiling_crossed opt (foldl (\<lambda>a f. a + f_Size f) c xs) ys)"
  by (induction xs arbitrary: c) auto

lemma archive_all_compressed:
  "compressed (archive_all m opt xs st) = foldl (\<lambda>a f. a + f_Size f) (compressed st) (map snd xs)"
  by (induction xs arbitrary: st) (simp_all add: archive_all_simps archive_file_sel)

lemma CreateArchive_walk_app:
  "f_Type f = FileTypeFolder \<or> f_IsSymbolic f \<Longrightarrow> CreateArchive_walk m opt rt f level st = (None, st)"
  "\<not> (f_Type f = FileTypeFolder \<or> f_IsSymbolic f) \<Longrightarrow>
     CreateArchive_walk m opt rt f level st =
       (if over_ceiling opt (archive_file m opt (TrimPrefix (f_UriDir f) (f_UriDir rt)) f st)
        then (Some ErrArchiveSrcSizeTooBig, archive_file m opt (TrimPrefix (f_UriDir f) (f_UriDir rt)) f st)
        else (None, archive_file m opt (TrimPrefix (f_UriDir f) (f_UriDir rt)) f st))"
  by (simp_all add: CreateArchive_walk_def Let_def)

lemma archive_all_failed:
  "archive_all m opt xs (st\<lparr>failed := failed st + n\<rparr>)
     = (archive_all m opt xs st)\<lparr>failed := failed (archive_all m opt xs st) + n\<rparr>"
proof (induction xs arbitrary: st)
  case Nil
  then show ?case by (simp add: archive_all_simps)
next
  case (Cons x xs)
  show ?case
    unfolding archive_all_simps(2) archive_file_failed by (rule Cons.IH)
qed

text \<open>
  A walk that the ceiling does not stop compresses the files it reaches, and its result
  is an error exactly when it meets a folder that cannot be listed.
\<close>

lemma Walk_nodes_visits:
  "\<not> ceiling_crossed opt (compressed st) (map snd (walk_inputs rt nodes)) \<Longrightarrow>
     snd (Walk_nodes (CreateArchive_walk m opt rt) level nodes st)
       = archive_all m opt (walk_inputs rt nodes) st \<and>
     (fst (Walk_nodes (CreateArchive_walk m opt rt) level nodes st) = None) = listing_ok nodes"
proof (induction rt nodes arbitrary: st level rule: walk_inputs.induct)
  case (1 rt)
  then show ?case by (simp add: archive_all_simps)
next
  case (2 rt i cs rest)
  let ?W = "CreateArchive_walk m opt rt"
  show ?case
  proof (cases "f_Type i = FileTypeFolder")
    case True
    note folder = True
    show ?thesis
    proof (cases "f_ListError i")
      case (Some err)
      with folder show ?thesis
        by (simp add: CreateArchive_walk_app archive_all_simps)
    next
      case None
      let ?xs = "walk_inputs rt cs"
      obtain r1 s1 where w1: "Walk_nodes ?W (level + 1) cs st = (r1, s1)"
        by (cases "Walk_nodes ?W (level + 1) cs st") auto
      from folder None "2.prems" have nc1: "\<not> ceiling_crossed opt (compressed st) (map snd ?xs)"
        by (simp add: ceiling_crossed_append)
      from "2.IH"(1) [OF conjI [OF folder None] nc1, of "level + 1"] w1
      have s1: "s1 = archive_all m opt ?xs st" and r1: "(r1 = None) = listing_ok cs"
        by simp_all
      show ?thesis
      proof (cases "listing_ok cs")
        case True
        with r1 have r1n: "r1 = None" by simp
        from folder None True have c2: "\<not> (f_Type i = FileTypeFolder \<and> \<not> (f_ListError i = None \<and> listing_ok cs))"
          by simp
        from folder None True "2.prems"
        have nc2: "\<not> ceiling_crossed opt (compressed s1) (map snd (walk_inputs rt rest))"
          by (simp add: ceiling_crossed_append s1 archive_all_compressed)
        from "2.IH"(2) [OF c2 nc2, of level] folder None True w1 r1n s1 show ?thesis
          by (simp add: CreateArchive_walk_app archive_all_simps)
      next
        case False
        with r1 obtain err where "r1 = Some err" by (cases r1) auto
        with folder None False w1 s1 show ?thesis
          by (simp add: CreateArchive_walk_app archive_all_simps)
      qed
    qed
  next
    case False
    note nf = False
    then have c2: "\<not> (f_Type i = FileTypeFolder \<and> \<not> (f_ListError i = None \<and> listing_ok cs))"
      by simp
    show ?thesis
    proof (cases "f_IsSymbolic i")
      case True
      from nf True "2.prems" have nc: "\<not> ceiling_crossed opt (compressed st) (map snd (walk_inputs rt rest))"
        by simp
      from "2.IH"(2) [OF c2 nc, of level] nf True show ?thesis
        by (simp add: CreateArchive_walk_app archive_all_simps)
    next
      case False
      let ?p = "TrimPrefix (f_UriDir i) (f_UriDir rt)"
      let ?st1 = "archive_file m opt ?p i st"
      from nf False "2.prems" have nov: "\<not> over_ceiling opt ?st1"
        and nc: "\<not> ceiling_crossed opt (compressed ?st1) (map snd (walk_inputs rt rest))"
        by (simp_all add: over_ceiling_def archive_file_sel)
      from "2.IH"(2) [OF c2 nc, of level] nf False nov show ?thesis
        by (simp add: CreateArchive_walk_app archive_all_simps Let_def)
    qed
  qed
qed

text \<open>
  The loop over the roots, when the ceiling does not stop it: every file the walks reach
  is compressed, and every walk that fails is counted once.
\<close>

lemma CreateArchive_files_all:
  "\<not> ceiling_crossed opt (compressed st) (map snd (archive_inputs rts)) \<Longrightarrow>
     CreateArchive_files m opt rts st
       = (None, (archive_all m opt (archive_inputs rts) st)
            \<lparr>failed := failed (archive_all m opt (archive_inputs rts) st)
                         + int (length (filter walk_fails rts))\<rparr>)"
proof (induction rts arbitrary: st)
  case Nil
  then show ?case by (simp add: archive_inputs_def archive_all_simps)
next
  case (Cons rt rts)
  have inp: "archive_inputs (rt # rts) = root_inputs rt @ archive_inputs rts"
    by (simp add: archive_inputs_def)
  show ?case
  proof (cases "f_Type (info rt) = FileTypeFile")
    case True
    let ?st1 = "archive_file m opt ''/'' (info rt) st"
    from True have ri: "root_inputs rt = [(''/'', info rt)]" and nw: "\<not> walk_fails rt"
      by (simp_all add: root_inputs_def walk_fails_def)
    from Cons.prems have nov: "\<not> over_ceiling opt ?st1"
      and nc: "\<not> ceiling_crossed opt (compressed ?st1) (map snd (archive_inputs rts))"
      unfolding inp ri by (simp_all add: over_ceiling_def archive_file_sel)
    from Cons.IH [OF nc] True nov nw show ?thesis
      unfolding inp ri by (simp add: archive_all_simps Let_def)
  next
    case False
    note nf = False
    show ?thesis
    proof (cases "f_ListError (info rt)")
      case (Some err)
      with nf have ri: "root_inputs rt = []" and wf: "walk_fails rt"
        by (simp_all add: root_inputs_def walk_fails_def)
      from Cons.prems have nc: "\<not> ceiling_crossed opt (compressed (st\<lparr>failed := failed st + 1\<rparr>))
          (map snd (archive_inputs rts))"
        unfolding inp ri by simp
      from Cons.IH [OF nc] nf Some wf show ?thesis
        unfolding inp ri by (simp add: Walk_def archive_all_simps archive_all_failed)
    next
      case None
      let ?xs = "walk_inputs (info rt) (children rt)"
      let ?W = "CreateArchive_walk m opt (info rt)"
      let ?s1 = "archive_all m opt ?xs st"
      from nf None have ri: "root_inputs rt = ?xs"
        and wf: "walk_fails rt = (\<not> listing_ok (children rt))"
        by (simp_all add: root_inputs_def walk_fails_def)
      from Cons.prems have nc1: "\<not> ceiling_crossed opt (compressed st) (map snd ?xs)"
        and nc2: "\<not> ceiling_crossed opt (compressed ?s1) (map snd (archive_inputs rts))"
        unfolding inp ri by (simp_all add: ceiling_crossed_append archive_all_compressed)
      obtain r1 s1 where w1: "Walk_nodes ?W 1 (children rt) st = (r1, s1)"
        by (cases "Walk_nodes ?W 1 (children rt) st") auto
      from Walk_nodes_visits [OF nc1, of m 1] w1
      have s1: "s1 = ?s1" and r1: "(r1 = None) = listing_ok (children rt)"
        by simp_all
      have w: "Walk rt ?W st = (r1, ?s1)"
        using None w1 s1 by (simp add: Walk_def)
      show ?thesis
      proof (cases r1)
        case None
        with r1 wf have nw: "\<not> walk_fails rt" by simp
        from Cons.IH [OF nc2] nf w None nw show ?thesis
          unfolding inp ri by (simp add: archive_all_simps)
      next
        case (Some err)
        with r1 wf have yw: "walk_fails rt" by simp
        from nc2 have nc3: "\<not> ceiling_crossed opt (compressed (?s1\<lparr>failed := failed ?s1 + 1\<rparr>))
            (map snd (archive_inputs rts))"
          by simp
        from Cons.IH [OF nc3] nf w Some yw show ?thesis
          unfolding inp ri by (simp add: archive_all_simps archive_all_failed)
      qed
    qed
  qed
qed

text \<open>The example manager, as far as archive creation reads it.\<close>

lemma demo_get:
  "m_Get demo_manager ''/a'' = Inr (demo_file ''/'' ''a'' 10 1)"
  "m_Get demo_manager ''/b'' = Inr (demo_file ''/'' ''b'' 10 2)"
  "m_Get demo_manager ''/c'' = Inr (demo_file ''/'' ''c'' 10 3)"
  "m_Get demo_manager ''/e'' = Inr (demo_file ''/'' ''e'' 10 4)"
  "m_Get demo_manager ''/d'' = Inr (demo_folder ''/'' ''d'' [demo_file ''/d/'' ''f'' 10 5])"
  by (simp_all add: demo_manager_def demo_roots_def)

lemma demo_compress:
  "entity \<noteq> 2 \<Longrightarrow> entity \<noteq> 3 \<Longrightarrow>
   compressFileToArchive demo_manager p (info (demo_file dir name sz entity)) False False st
     = (None, st\<lparr>entries := entries st @
          [(\<lparr>fh_Name = p @ name, fh_Modified = 0, fh_UncompressedSize64 = sz, fh_Method = Store\<rparr>, [7, 7])]\<rparr>)"
  "compressFileToArchive demo_manager p (info (demo_file dir name sz 2)) False False st
     = (Some (Wrapped (''failed to get entity source for file '' @ dir @ name) (OtherError ''cannot open'')), st)"
  "compressFileToArchive demo_manager p (info (demo_file dir name sz 3)) False False st
     = (Some (OtherError ''read failed''), st\<lparr>entries := entries st @
          [(\<lparr>fh_Name = p @ name, fh_Modified = 0, fh_UncompressedSize64 = sz, fh_Method = Store\<rparr>, [7, 7])]\<rparr>)"
  by (simp_all add: compressFileToArchive_def demo_manager_def demo_file_def io_Copy_def Let_def)

lemma demo_info:
  "f_Type (info (demo_file dir name sz entity)) = FileTypeFile"
  "f_Size (info (demo_file dir name sz entity)) = sz"
  "f_IsSymbolic (info (demo_file dir name sz entity)) = False"
  "f_UriDir (info (demo_file dir name sz entity)) = dir"
  "children (demo_file dir name sz entity) = []"
  "f_Type (info (demo_folder dir name cs)) = FileTypeFolder"
  "f_ListError (info (demo_folder dir name cs)) = None"
  "f_UriDir (info (demo_folder dir name cs)) = dir"
  "children (demo_folder dir name cs) = cs"
  by (simp_all add: demo_file_def demo_folder_def)

lemma demo_opt_sel:
  "ArchiveCompression (demo_options limit) = False"
  "DryRun (demo_options limit) = False"
  "ProgressFunc (demo_options limit) = False"
  "MaxArchiveSize (demo_options limit) = limit"
  by (simp_all add: demo_options_def)

lemma demo_archive_file:
  "archive_file demo_manager (demo_options limit) p (info (demo_file dir name sz 2)) st
     = st\<lparr>failed := failed st + 1, compressed := compressed st + sz\<rparr>"
  "entity \<noteq> 2 \<Longrightarrow> entity \<noteq> 3 \<Longrightarrow>
   archive_file demo_manager (demo_options limit) p (info (demo_file dir name sz entity)) st
     = st\<lparr>entries := entries st @
          [(\<lparr>fh_Name = p @ name, fh_Modified = 0, fh_UncompressedSize64 = sz, fh_Method = Store\<rparr>, [7, 7])],
          compressed := compressed st + sz\<rparr>"
  by (simp_all add: archive_file_def demo_opt_sel demo_compress demo_info)

section \<open>Failures of single files\<close>

text \<open>
  C7: take a call whose roots all resolve and in which the byte counter never gets above
  a positive ceiling (the ceiling ends the whole run, which is a matter of its own).
  Then \<^verbatim>\<open>CreateArchive\<close> returns no error, and every file the walks reach is processed,
  failed or not. The returned count is the number of files among them whose read or
  compression fails, each counted once, plus the number of folder roots whose walk met a
  folder it could not list. The closed archive holds what each file leaves, in order:
  outside a dry run, a file that does not fail has exactly one entry, with its name, its
  nominal size and the bytes of its entity source.
\<close>

theorem CreateArchive_counts_failures:
  "resolve_roots m uris = Inr files \<longrightarrow>
   \<not> ceiling_crossed opt 0 (map snd (archive_inputs files)) \<longrightarrow>
     fst (CreateArchive m uris opt)
       = (int (length (filter (read_fails m opt) (archive_inputs files)))
            + int (length (filter walk_fails files)), None) \<and>
     entries (snd (CreateArchive m uris opt)) = concat (map (written m opt) (archive_inputs files)) \<and>
     writer_closed (snd (CreateArchive m uris opt)) \<and>
     (\<not> DryRun opt \<longrightarrow>
        (\<forall>x \<in> set (archive_inputs files). \<not> read_fails m opt x \<longrightarrow>
           (\<exists>es. GetEntitySource m (f_PrimaryEntityID (snd x)) = Inr es \<and>
              written m opt x =
                [(\<lparr>fh_Name = zip_path m (fst x) (f_DisplayName (snd x)),
                   fh_Modified = f_UpdatedAt (snd x), fh_UncompressedSize64 = f_Size (snd x),
                   fh_Method = (if ArchiveCompression opt then Deflate else Store)\<rparr>,
                  es_Data es)])))"
proof (intro impI)
  assume r: "resolve_roots m uris = Inr files"
    and nc: "\<not> ceiling_crossed opt 0 (map snd (archive_inputs files))"
  let ?end = "archive_all m opt (archive_inputs files) new_archive"
  from nc have "\<not> ceiling_crossed opt (compressed new_archive) (map snd (archive_inputs files))"
    by (simp add: new_archive_def)
  from CreateArchive_files_all [OF this]
  have run: "CreateArchive_files m opt files new_archive
      = (None, ?end\<lparr>failed := failed ?end + int (length (filter walk_fails files))\<rparr>)" .
  have res: "CreateArchive m uris opt =
      ((failed ?end + int (length (filter walk_fails files)), None),
       ?end\<lparr>failed := failed ?end + int (length (filter walk_fails files)), writer_closed := True\<rparr>)"
    by (simp add: CreateArchive_def r run)
  have one: "\<exists>es. GetEntitySource m (f_PrimaryEntityID (snd x)) = Inr es \<and>
              written m opt x =
                [(\<lparr>fh_Name = zip_path m (fst x) (f_DisplayName (snd x)),
                   fh_Modified = f_UpdatedAt (snd x), fh_UncompressedSize64 = f_Size (snd x),
                   fh_Method = (if ArchiveCompression opt then Deflate else Store)\<rparr>,
                  es_Data es)]"
    if "\<not> DryRun opt" "\<not> read_fails m opt x" for x
    using that by (cases "GetEntitySource m (f_PrimaryEntityID (snd x))")
      (simp_all add: read_fails_def written_def zip_header_def)
  show "fst (CreateArchive m uris opt)
       = (int (length (filter (read_fails m opt) (archive_inputs files)))
            + int (length (filter walk_fails files)), None) \<and>
     entries (snd (CreateArchive m uris opt)) = concat (map (written m opt) (archive_inputs files)) \<and>
     writer_closed (snd (CreateArchive m uris opt)) \<and>
     (\<not> DryRun opt \<longrightarrow>
        (\<forall>x \<in> set (archive_inputs files). \<not> read_fails m opt x \<longrightarrow>
           (\<exists>es. GetEntitySource m (f_PrimaryEntityID (snd x)) = Inr es \<and>
              written m opt x =
                [(\<lparr>fh_Name = zip_path m (fst x) (f_DisplayName (snd x)),
                   fh_Modified = f_UpdatedAt (snd x), fh_UncompressedSize64 = f_Size (snd x),
                   fh_Method = (if ArchiveCompression opt then Deflate else Store)\<rparr>,
                  es_Data es)])))"
    using one by (simp add: res archive_all_sel new_archive_def)
qed

lemma demo_source:
  "GetEntitySource demo_manager 2 = Inl (OtherError ''cannot open'')"
  "entity \<noteq> 2 \<Longrightarrow> GetEntitySource demo_manager entity =
     Inr \<lparr>es_Entity = \<lparr>ent_ID = entity, ent_Size = 10\<rparr>, es_Data = [7, 7],
          es_ReadError = (if entity = 3 then Some (OtherError ''read failed'') else None)\<rparr>"
  "CreateHeader_error demo_manager h = None"
  "zip_path demo_manager p name = p @ name"
  by (simp_all add: demo_manager_def)

lemma demo_file_entity:
  "f_PrimaryEntityID (info (demo_file dir name sz entity)) = entity"
  "f_DisplayName (info (demo_file dir name sz entity)) = name"
  "f_UpdatedAt (info (demo_file dir name sz entity)) = 0"
  by (simp_all add: demo_file_def)

lemma demo_fails:
  "read_fails demo_manager (demo_options limit) (p, info (demo_file dir name sz 2))"
  "read_fails demo_manager (demo_options limit) (p, info (demo_file dir name sz 3))"
  "entity \<noteq> 2 \<Longrightarrow> entity \<noteq> 3 \<Longrightarrow>
     \<not> read_fails demo_manager (demo_options limit) (p, info (demo_file dir name sz entity))"
  by (simp_all add: read_fails_def demo_opt_sel demo_source demo_file_entity)

lemma demo_written:
  "written demo_manager (demo_options limit) (p, info (demo_file dir name sz 2)) = []"
  "entity \<noteq> 2 \<Longrightarrow>
     written demo_manager (demo_options limit) (p, info (demo_file dir name sz entity))
       = [(\<lparr>fh_Name = p @ name, fh_Modified = 0, fh_UncompressedSize64 = sz, fh_Method = Store\<rparr>, [7, 7])]"
  by (simp_all add: written_def zip_header_def demo_opt_sel demo_source demo_file_entity demo_info)

text \<open>
  The spec's example: three files, the second fails while it is read; the count is 1 and
  the other two have their entries (the failed one has what was copied of it). And with
  a ceiling of 100 bytes, a first root that cannot be opened and a second that is fine:
  the count is 1, and the second file is in the archive.
\<close>

theorem CreateArchive_counts_failures_witness:
  "fst (CreateArchive demo_manager [''/a'', ''/c'', ''/e''] (demo_options 0)) = (1, None) \<and>
   map (\<lambda>e. (fh_Name (fst e), snd e))
       (entries (snd (CreateArchive demo_manager [''/a'', ''/c'', ''/e''] (demo_options 0))))
     = [(''/a'', [7, 7]), (''/c'', [7, 7]), (''/e'', [7, 7])] \<and>
   fst (CreateArchive demo_manager [''/b'', ''/a''] (demo_options 100)) = (1, None) \<and>
   map (\<lambda>e. (fh_Name (fst e), snd e))
       (entries (snd (CreateArchive demo_manager [''/b'', ''/a''] (demo_options 100))))
     = [(''/a'', [7, 7])]"
proof -
  let ?files = "[demo_file ''/'' ''a'' 10 1, demo_file ''/'' ''c'' 10 3, demo_file ''/'' ''e'' 10 4]"
  let ?two = "[demo_file ''/'' ''b'' 10 2, demo_file ''/'' ''a'' 10 1]"
  have r: "resolve_roots demo_manager [''/a'', ''/c'', ''/e''] = Inr ?files"
    "resolve_roots demo_manager [''/b'', ''/a''] = Inr ?two"
    by (simp_all add: demo_get)
  have inp: "archive_inputs ?files = [(''/'', info (demo_file ''/'' ''a'' 10 1)),
      (''/'', info (demo_file ''/'' ''c'' 10 3)), (''/'', info (demo_file ''/'' ''e'' 10 4))]"
    "archive_inputs ?two = [(''/'', info (demo_file ''/'' ''b'' 10 2)), (''/'', info (demo_file ''/'' ''a'' 10 1))]"
    by (simp_all add: archive_inputs_def root_inputs_def demo_info)
  have nw: "filter walk_fails ?files = []" "filter walk_fails ?two = []"
    by (simp_all add: walk_fails_def demo_info)
  have nc: "\<not> ceiling_crossed (demo_options 0) 0 (map snd (archive_inputs ?files))"
    "\<not> ceiling_crossed (demo_options 100) 0 (map snd (archive_inputs ?two))"
    unfolding inp by (simp_all add: demo_opt_sel demo_info word_sless_alt)
  from CreateArchive_counts_failures [of demo_manager "[''/a'', ''/c'', ''/e'']" ?files "demo_options 0"]
    r(1) nc(1)
  have a: "fst (CreateArchive demo_manager [''/a'', ''/c'', ''/e''] (demo_options 0))
       = (int (length (filter (read_fails demo_manager (demo_options 0)) (archive_inputs ?files)))
            + int (length (filter walk_fails ?files)), None)"
    and b: "entries (snd (CreateArchive demo_manager [''/a'', ''/c'', ''/e''] (demo_options 0)))
       = concat (map (written demo_manager (demo_options 0)) (archive_inputs ?files))"
    by blast+
  from CreateArchive_counts_failures [of demo_manager "[''/b'', ''/a'']" ?two "demo_options 100"]
    r(2) nc(2)
  have c: "fst (CreateArchive demo_manager [''/b'', ''/a''] (demo_options 100))
       = (int (length (filter (read_fails demo_manager (demo_options 100)) (archive_inputs ?two)))
            + int (length (filter walk_fails ?two)), None)"
    and d: "entries (snd (CreateArchive demo_manager [''/b'', ''/a''] (demo_options 100)))
       = concat (map (written demo_manager (demo_options 100)) (archive_inputs ?two))"
    by blast+
  from a b c d show ?thesis
    unfolding inp nw by (simp add: demo_fails demo_written)
qed

section \<open>The size ceiling\<close>

lemma demo_walk:
  "Walk (demo_folder ''/'' ''d'' [demo_file ''/d/'' ''f'' 10 5])
      (CreateArchive_walk demo_manager (demo_options 5) (info (demo_folder ''/'' ''d'' [demo_file ''/d/'' ''f'' 10 5])))
      new_archive
   = (Some ErrArchiveSrcSizeTooBig,
      new_archive\<lparr>entries := [(\<lparr>fh_Name = ''d/f'', fh_Modified = 0, fh_UncompressedSize64 = 10,
                                   fh_Method = Store\<rparr>, [7, 7])],
                  compressed := 10\<rparr>)"
proof -
  have cb: "CreateArchive_walk demo_manager (demo_options 5) (info (demo_folder ''/'' ''d'' cs))
      (info (demo_file ''/d/'' ''f'' 10 5)) level new_archive
      = (Some ErrArchiveSrcSizeTooBig,
      new_archive\<lparr>entries := [(\<lparr>fh_Name = ''d/f'', fh_Modified = 0, fh_UncompressedSize64 = 10,
                                   fh_Method = Store\<rparr>, [7, 7])],
                  compressed := 10\<rparr>)" for cs level
    by (simp add: CreateArchive_walk_app demo_info demo_archive_file TrimPrefix_def over_ceiling_def
        demo_opt_sel new_archive_def word_sless_alt)
  have nodes: "Walk_nodes walk level [demo_file ''/d/'' ''f'' 10 5] s
      = (case walk (info (demo_file ''/d/'' ''f'' 10 5)) level s of
           (Some err, s1) \<Rightarrow> (Some err, s1) | (None, s1) \<Rightarrow> (None, s1))"
    for walk :: "FileInfo \<Rightarrow> nat \<Rightarrow> archive_state \<Rightarrow> error option \<times> archive_state" and s level
    by (simp add: demo_file_def split: prod.splits option.splits)
  show ?thesis
    by (simp add: Walk_def demo_info nodes cb)
qed

text \<open>
  A run over a single root that is not a file returns no error, whatever happens in the
  walk: the branch of the loop for such a root has no \<^verbatim>\<open>return\<close>.
\<close>

lemma CreateArchive_folder_root_no_error:
  assumes "resolve_roots m [uri] = Inr [rt]" and "f_Type (info rt) \<noteq> FileTypeFile"
  shows "snd (fst (CreateArchive m [uri] opt)) = None"
  using assms
  by (simp add: CreateArchive_def split: prod.splits option.splits)

text \<open>
  C2, where the code misses it. The walk function returns the size error when the byte
  counter gets above the ceiling inside a folder, as the branch for a root file does;
  but \<^verbatim>\<open>CreateArchive\<close> treats every error of \<^verbatim>\<open>m.Walk\<close> as a folder to skip: it logs, counts
  one failure and goes on to the next root. With a ceiling of 5 bytes, the folder root
  \<^verbatim>\<open>/d\<close> holding one file of 10 bytes gives the result \<open>(1, nil)\<close> and a closed archive
  with that file in it; the same file as a root gives \<open>(0, ErrArchiveSrcSizeTooBig)\<close>.
\<close>

theorem CreateArchive_folder_ceiling_swallowed:
  "CreateArchive demo_manager [''/d''] (demo_options 5)
     = ((1, None),
        \<lparr>failed = 1, compressed = 10,
          entries = [(\<lparr>fh_Name = ''d/f'', fh_Modified = 0, fh_UncompressedSize64 = 10,
                       fh_Method = Store\<rparr>, [7, 7])],
          writer_closed = True, dryrun_calls = [], progress_calls = []\<rparr>) \<and>
   fst (CreateArchive demo_manager [''/e''] (demo_options 5)) = (0, Some ErrArchiveSrcSizeTooBig)"
  by (simp add: CreateArchive_def demo_get demo_info demo_walk demo_archive_file over_ceiling_def
      demo_opt_sel Let_def word_sless_alt)
     (simp add: new_archive_def)

section \<open>Facts about archive listing\<close>

text \<open>
  The cache key determines the entity id and the encoding name: the decimal rendering of
  an integer is injective and has no underscore in it.
\<close>

lemma digit_char_mem: "d < 10 \<Longrightarrow> digit_char d \<in> set ''0123456789''"
  unfolding digit_char_def by (rule nth_mem) simp

lemma digit_char_inj: "d < 10 \<Longrightarrow> d' < 10 \<Longrightarrow> digit_char d = digit_char d' \<Longrightarrow> d = d'"
proof -
  assume a: "d < 10" "d' < 10" "digit_char d = digit_char d'"
  have "distinct ''0123456789''" by simp
  moreover have "d < length ''0123456789''" "d' < length ''0123456789''" using a by simp_all
  ultimately show "d = d'"
    using a(3) unfolding digit_char_def by (simp only: nth_eq_iff_index_eq)
qed

lemma nat_digits_set: "set (nat_digits n) \<subseteq> set ''0123456789''"
proof (induction n rule: nat_digits.induct)
  case (1 n)
  show ?case
  proof (cases "n < 10")
    case True
    then show ?thesis
      using digit_char_mem [of n] by (subst nat_digits.simps) simp
  next
    case False
    have "n mod 10 < 10" by simp
    from digit_char_mem [OF this] "1.IH" [OF False] False show ?thesis
      by (subst nat_digits.simps) simp
  qed
qed

lemma nat_digits_nonempty: "nat_digits n \<noteq> []"
  by (subst nat_digits.simps) simp

lemma nat_digits_inj: "nat_digits n = nat_digits k \<Longrightarrow> n = k"
proof (induction n arbitrary: k rule: nat_digits.induct)
  case (1 n)
  show ?case
  proof (cases "n < 10")
    case True
    note n = True
    show ?thesis
    proof (cases "k < 10")
      case True
      with n "1.prems" have "digit_char n = digit_char k"
        by (simp add: nat_digits.simps [of n] nat_digits.simps [of k])
      with n True show ?thesis by (rule digit_char_inj)
    next
      case False
      with n "1.prems" have "[digit_char n] = nat_digits (k div 10) @ [digit_char (k mod 10)]"
        by (simp add: nat_digits.simps [of n] nat_digits.simps [of k])
      then show ?thesis using nat_digits_nonempty [of "k div 10"] by simp
    qed
  next
    case False
    note n = False
    show ?thesis
    proof (cases "k < 10")
      case True
      with n "1.prems" have "nat_digits (n div 10) @ [digit_char (n mod 10)] = [digit_char k]"
        by (simp add: nat_digits.simps [of n] nat_digits.simps [of k])
      then show ?thesis using nat_digits_nonempty [of "n div 10"] by simp
    next
      case False
      with n "1.prems" have e: "nat_digits (n div 10) = nat_digits (k div 10)"
        "digit_char (n mod 10) = digit_char (k mod 10)"
        by (simp_all add: nat_digits.simps [of n] nat_digits.simps [of k])
      from "1.IH" [OF n e(1)] have d: "n div 10 = k div 10" .
      have "n mod 10 = k mod 10"
        by (rule digit_char_inj [OF _ _ e(2)]) simp_all
      with d show ?thesis
        by (metis div_mult_mod_eq)
    qed
  qed
qed

lemma itoa_inj: "itoa i = itoa j \<Longrightarrow> i = j"
proof -
  assume e: "itoa i = itoa j"
  have nd: "CHR ''-'' \<notin> set (nat_digits n)" for n
    using nat_digits_set [of n] by auto
  have hd: "hd (nat_digits n) \<noteq> CHR ''-''" for n
    using nd [of n] nat_digits_nonempty [of n] by (cases "nat_digits n") auto
  show "i = j"
  proof (cases "i < 0")
    case True
    note i = True
    show ?thesis
    proof (cases "j < 0")
      case True
      with i e have "nat_digits (nat (- i)) = nat_digits (nat (- j))" by (simp add: itoa_def)
      then have "nat (- i) = nat (- j)" by (rule nat_digits_inj)
      with i True show ?thesis by simp
    next
      case False
      with i e have "CHR ''-'' # nat_digits (nat (- i)) = nat_digits (nat j)" by (simp add: itoa_def)
      then have "hd (nat_digits (nat j)) = CHR ''-''" by (metis list.sel(1))
      with hd show ?thesis by blast
    qed
  next
    case False
    note i = False
    show ?thesis
    proof (cases "j < 0")
      case True
      with i e have "nat_digits (nat i) = CHR ''-'' # nat_digits (nat (- j))" by (simp add: itoa_def)
      then have "hd (nat_digits (nat i)) = CHR ''-''" by (metis list.sel(1))
      with hd show ?thesis by blast
    next
      case False
      with i e have "nat_digits (nat i) = nat_digits (nat j)" by (simp add: itoa_def)
      then have "nat i = nat j" by (rule nat_digits_inj)
      with i False show ?thesis by simp
    qed
  qed
qed

lemma itoa_no_underscore: "CHR ''_'' \<notin> set (itoa i)"
  using nat_digits_set [of "nat i"] nat_digits_set [of "nat (- i)"]
  by (auto simp: itoa_def)

lemma split_at_separator:
  assumes "x \<notin> set xs" "x \<notin> set xs'" "xs @ x # ys = xs' @ x # ys'"
  shows "xs = xs' \<and> ys = ys'"
proof -
  have "takeWhile (\<lambda>c. c \<noteq> x) (xs @ x # ys) = xs" "takeWhile (\<lambda>c. c \<noteq> x) (xs' @ x # ys') = xs'"
    using assms(1,2) by (auto simp: takeWhile_tail)
  with assms(3) have "xs = xs'" by simp
  with assms(3) show ?thesis by simp
qed

lemma getArchiveListCacheKey_inj:
  "getArchiveListCacheKey e1 c1 = getArchiveListCacheKey e2 c2 \<longleftrightarrow> e1 = e2 \<and> c1 = c2"
proof
  assume "getArchiveListCacheKey e1 c1 = getArchiveListCacheKey e2 c2"
  then have "itoa e1 @ CHR ''_'' # c1 = itoa e2 @ CHR ''_'' # c2"
    by (simp add: getArchiveListCacheKey_def)
  then have "itoa e1 = itoa e2 \<and> c1 = c2"
    using itoa_no_underscore [of e1] itoa_no_underscore [of e2]
    by (intro split_at_separator [of "CHR ''_''"]) simp_all
  then show "e1 = e2 \<and> c1 = c2"
    using itoa_inj by blast
qed simp

text \<open>A call that gets as far as the cache lookup: the hit and the miss.\<close>

lemma reaches_cache_enc:
  "reaches_cache m uri entity zipEncoding rt t enc \<Longrightarrow>
     (if zipEncoding \<noteq> ''''
      then (case map_of ZipEncodings (ToLower (unicode_ToLower m) zipEncoding) of
              None \<Rightarrow> Inl (ErrNotSupportedAction (''not supported zip encoding: '' @ zipEncoding))
            | Some e \<Rightarrow> Inr (Some e))
      else Inr None) = Inr enc"
  by (auto simp: reaches_cache_def split: if_splits)

lemma ListArchiveFiles_hit:
  assumes "reaches_cache m uri entity zipEncoding rt t enc"
    and "kv_Get (kv st) (getArchiveListCacheKey (ent_ID t) zipEncoding) = Some res"
  shows "ListArchiveFiles m st uri entity zipEncoding = (Inr res, st)"
proof -
  from assms(1) have a: "fs_Get m uri = Inr rt" "f_Type (info rt) = FileTypeFile"
    "\<not> (0 <s DecompressSize m \<and> DecompressSize m <s f_Size (info rt))"
    "FindDesiredEntity m rt entity = (True, t)"
    by (simp_all add: reaches_cache_def)
  show ?thesis
    unfolding ListArchiveFiles_def reaches_cache_enc [OF assms(1)]
    using a assms(2) by (simp add: Let_def)
qed

lemma ListArchiveFiles_miss:
  assumes "reaches_cache m uri entity zipEncoding rt t enc"
    and "kv_Get (kv st) (getArchiveListCacheKey (ent_ID t) zipEncoding) = None"
    and "GetEntitySource m (ent_ID t) = Inr es"
    and "f_Ext (info rt) = ''zip'' \<or> f_Ext (info rt) = ''7z''"
  shows "ListArchiveFiles m st uri entity zipEncoding =
     (case (if f_Ext (info rt) = ''zip'' then getZipFileList else get7zFileList) m es (ent_Size t) enc of
        Inl err \<Rightarrow>
          (Inl (Wrapped ''failed to read file list'' err),
           st\<lparr>events := events st @ [EvOpen (ent_ID t), EvDecode (f_Ext (info rt)) (ent_ID t),
                                     EvClose (ent_ID t)]\<rparr>)
      | Inr fileList \<Rightarrow>
          (Inr fileList,
           st\<lparr>kv := kv_Set (kv st) (getArchiveListCacheKey (ent_ID t) zipEncoding) fileList
                       ArchiveListCacheTTL,
              events := events st @ [EvOpen (ent_ID t), EvDecode (f_Ext (info rt)) (ent_ID t),
                                     EvClose (ent_ID t)]\<rparr>))"
proof -
  from assms(1) have a: "fs_Get m uri = Inr rt" "f_Type (info rt) = FileTypeFile"
    "\<not> (0 <s DecompressSize m \<and> DecompressSize m <s f_Size (info rt))"
    "FindDesiredEntity m rt entity = (True, t)"
    by (simp_all add: reaches_cache_def)
  show ?thesis
    unfolding ListArchiveFiles_def reaches_cache_enc [OF assms(1)]
    using a assms(2,3,4) by (auto simp: Let_def split: sum.splits)
qed

lemma decode_count_append:
  "decode_count (st\<lparr>events := events st @ [EvOpen a, EvDecode x b, EvClose c]\<rparr>) = decode_count st + 1"
  "decode_count (st\<lparr>kv := k\<rparr>) = decode_count st"
  "decode_count (st\<lparr>kv := k, events := events st @ [EvOpen a, EvDecode x b, EvClose c]\<rparr>) = decode_count st + 1"
  by (simp_all add: decode_count_def)

lemma kv_elapse_Get:
  "d < ttl \<Longrightarrow> kv_Get (kv_elapse d (kv_Set c k v ttl)) k = Some v"
  "k' \<noteq> k \<Longrightarrow> kv_Get (kv_elapse d (kv_Set c k v ttl)) k' = kv_Get (kv_elapse d c) k'"
  "kv_Get c k = None \<Longrightarrow> kv_Get (kv_elapse d c) k = None"
  "ttl \<le> d \<Longrightarrow> kv_Get (kv_elapse d (kv_Set c k v ttl)) k = None"
  by (auto simp: kv_Get_def kv_elapse_def kv_Set_def split: option.splits)

lemma ListArchiveFiles_miss_Inr:
  assumes r: "reaches_cache m uri entity zipEncoding rt t enc"
    and miss: "kv_Get (kv st) (getArchiveListCacheKey (ent_ID t) zipEncoding) = None"
    and res: "ListArchiveFiles m st uri entity zipEncoding = (Inr l, st1)"
  shows "st1 = st\<lparr>kv := kv_Set (kv st) (getArchiveListCacheKey (ent_ID t) zipEncoding) l
                       ArchiveListCacheTTL,
              events := events st @ [EvOpen (ent_ID t), EvDecode (f_Ext (info rt)) (ent_ID t),
                                     EvClose (ent_ID t)]\<rparr>"
proof -
  from r have a: "fs_Get m uri = Inr rt" "f_Type (info rt) = FileTypeFile"
    "\<not> (0 <s DecompressSize m \<and> DecompressSize m <s f_Size (info rt))"
    "FindDesiredEntity m rt entity = (True, t)"
    by (simp_all add: reaches_cache_def)
  from res obtain es where es: "GetEntitySource m (ent_ID t) = Inr es"
    unfolding ListArchiveFiles_def reaches_cache_enc [OF r]
    using a miss by (cases "GetEntitySource m (ent_ID t)") (auto simp: Let_def)
  from res have ext: "f_Ext (info rt) = ''zip'' \<or> f_Ext (info rt) = ''7z''"
    unfolding ListArchiveFiles_def reaches_cache_enc [OF r]
    using a miss es by (auto simp: Let_def split: if_splits)
  from res show ?thesis
    unfolding ListArchiveFiles_miss [OF r miss es ext]
    by (auto split: sum.splits)
qed

lemma demo_fs_get:
  "fs_Get demo_manager ''/a'' = Inr (demo_file ''/'' ''a'' 10 1)"
  "fs_Get demo_manager ''/e'' = Inr (demo_file ''/'' ''e'' 10 4)"
  "fs_Get demo_manager ''/z'' = Inr (demo_file ''/'' ''z'' 10 9)"
  by (simp_all add: demo_manager_def demo_roots_def)

lemma demo_manager_sel:
  "DecompressSize demo_manager = 0"
  "FindDesiredEntity demo_manager f e = (True, \<lparr>ent_ID = f_PrimaryEntityID (info f), ent_Size = f_Size (info f)\<rparr>)"
  "entity \<noteq> 2 \<Longrightarrow> GetEntitySource demo_manager entity =
      Inr \<lparr>es_Entity = \<lparr>ent_ID = entity, ent_Size = 10\<rparr>, es_Data = [7, 7],
           es_ReadError = (if entity = 3 then Some (OtherError ''read failed'') else None)\<rparr>"
  by (simp_all add: demo_manager_def)

lemma demo_file_sel:
  "f_PrimaryEntityID (info (demo_file dir name sz entity)) = entity"
  "f_Ext (info (demo_file dir name sz entity)) = ''zip''"
  by (simp_all add: demo_file_def)

lemma gbk: "map_of ZipEncodings (ToLower f ''gbk'') = Some GBK"
  by (simp add: ZipEncodings_def ToLower_def lower_char_def)

lemma demo_reaches:
  "reaches_cache demo_manager ''/a'' '''' ''gbk'' (demo_file ''/'' ''a'' 10 1)
     \<lparr>ent_ID = 1, ent_Size = 10\<rparr> (Some GBK)"
  "reaches_cache demo_manager ''/z'' '''' '''' (demo_file ''/'' ''z'' 10 9)
     \<lparr>ent_ID = 9, ent_Size = 10\<rparr> None"
  by (simp_all add: reaches_cache_def demo_fs_get demo_info demo_manager_sel demo_file_sel gbk)

lemma demo_decode:
  "getZipFileList demo_manager
     \<lparr>es_Entity = \<lparr>ent_ID = 1, ent_Size = 10\<rparr>, es_Data = [7, 7], es_ReadError = None\<rparr> 10 enc
   = Inr [\<lparr>af_Name = ''x'', af_Size = 1, af_UpdatedAt = Some 0, af_IsDirectory = False\<rparr>]"
  "getZipFileList demo_manager
     \<lparr>es_Entity = \<lparr>ent_ID = 9, ent_Size = 10\<rparr>, es_Data = [7, 7], es_ReadError = None\<rparr> 10 enc
   = Inl (Wrapped ''failed to create zip reader'' (OtherError ''zip: not a valid zip file''))"
  by (cases enc; simp add: getZipFileList_def demo_manager_def)+

lemma demo_miss: "kv_Get (kv state0) k = None"
  by (simp add: state0_def kv_Get_def)

section \<open>The listing cache\<close>

text \<open>
  C8: take a call that gets past its checks, misses the cache and returns a listing; it
  has run a decoder once. A second call for the same entity id and encoding name, made
  after \<open>d < 3600\<close> seconds, returns that listing and leaves the state as it found it: no
  entity source is opened, no decoder runs. Made after 3600 seconds or more, a second
  call that returns a listing has run a decoder again. The cache key determines the
  entity id and the encoding name, so a call for another entity id, not cached before,
  misses: if it returns a listing it has run a decoder again.
\<close>

theorem listing_decoded_once_within_ttl:
  "reaches_cache m uri entity zipEncoding rt t enc \<longrightarrow>
   kv_Get (kv st) (getArchiveListCacheKey (ent_ID t) zipEncoding) = None \<longrightarrow>
   ListArchiveFiles m st uri entity zipEncoding = (Inr l, sa) \<longrightarrow>
   d < 3600 \<longrightarrow>
   reaches_cache m uri' entity' zipEncoding rt' t' enc' \<longrightarrow>
     decode_count sa = decode_count st + 1 \<and>
     (ent_ID t' = ent_ID t \<longrightarrow>
        ListArchiveFiles m (sa\<lparr>kv := kv_elapse d (kv sa)\<rparr>) uri' entity' zipEncoding
          = (Inr l, sa\<lparr>kv := kv_elapse d (kv sa)\<rparr>)) \<and>
     (ent_ID t' = ent_ID t \<longrightarrow>
        (\<forall>late l' st''. 3600 \<le> late \<longrightarrow>
           ListArchiveFiles m (sa\<lparr>kv := kv_elapse late (kv sa)\<rparr>) uri' entity' zipEncoding
             = (Inr l', st'') \<longrightarrow>
           decode_count st'' = decode_count sa + 1)) \<and>
     (ent_ID t' \<noteq> ent_ID t \<longrightarrow>
      kv_Get (kv st) (getArchiveListCacheKey (ent_ID t') zipEncoding) = None \<longrightarrow>
        (\<forall>l' st''. ListArchiveFiles m (sa\<lparr>kv := kv_elapse d (kv sa)\<rparr>) uri' entity' zipEncoding
                     = (Inr l', st'') \<longrightarrow>
                   decode_count st'' = decode_count sa + 1)) \<and>
     (getArchiveListCacheKey ea ca = getArchiveListCacheKey eb cb \<longleftrightarrow> ea = eb \<and> ca = cb)"
proof (intro impI)
  assume r: "reaches_cache m uri entity zipEncoding rt t enc"
    and miss: "kv_Get (kv st) (getArchiveListCacheKey (ent_ID t) zipEncoding) = None"
    and res: "ListArchiveFiles m st uri entity zipEncoding = (Inr l, sa)"
    and d: "d < 3600"
    and rb: "reaches_cache m uri' entity' zipEncoding rt' t' enc'"
  let ?key = "getArchiveListCacheKey (ent_ID t) zipEncoding"
  let ?st1' = "sa\<lparr>kv := kv_elapse d (kv sa)\<rparr>"
  from ListArchiveFiles_miss_Inr [OF r miss res]
  have sa: "sa = st\<lparr>kv := kv_Set (kv st) ?key l ArchiveListCacheTTL,
              events := events st @ [EvOpen (ent_ID t), EvDecode (f_Ext (info rt)) (ent_ID t),
                                     EvClose (ent_ID t)]\<rparr>" .
  have kva: "kv sa = kv_Set (kv st) ?key l 3600"
    by (subst sa) (simp add: ArchiveListCacheTTL_def)
  have once: "decode_count sa = decode_count st + 1"
    by (subst sa) (simp add: decode_count_append)
  have same: "ListArchiveFiles m ?st1' uri' entity' zipEncoding = (Inr l, ?st1')"
    if "ent_ID t' = ent_ID t"
  proof (rule ListArchiveFiles_hit [OF rb])
    show "kv_Get (kv ?st1') (getArchiveListCacheKey (ent_ID t') zipEncoding) = Some l"
      using that d by (simp add: kva kv_elapse_Get)
  qed
  have expired: "decode_count st'' = decode_count sa + 1"
    if eq: "ent_ID t' = ent_ID t" and late: "3600 \<le> late"
      and resb: "ListArchiveFiles m (sa\<lparr>kv := kv_elapse late (kv sa)\<rparr>) uri' entity' zipEncoding = (Inr l', st'')"
    for late l' st''
  proof -
    have "kv_Get (kv (sa\<lparr>kv := kv_elapse late (kv sa)\<rparr>)) (getArchiveListCacheKey (ent_ID t') zipEncoding) = None"
      using eq late by (simp add: kva kv_elapse_Get)
    from ListArchiveFiles_miss_Inr [OF rb this resb] show ?thesis
      by (simp add: decode_count_def)
  qed
  have other: "decode_count st'' = decode_count sa + 1"
    if ne: "ent_ID t' \<noteq> ent_ID t"
      and missb: "kv_Get (kv st) (getArchiveListCacheKey (ent_ID t') zipEncoding) = None"
      and resb: "ListArchiveFiles m ?st1' uri' entity' zipEncoding = (Inr l', st'')"
    for l' st''
  proof -
    from ne have "getArchiveListCacheKey (ent_ID t') zipEncoding \<noteq> ?key"
      by (simp add: getArchiveListCacheKey_inj)
    with missb have "kv_Get (kv ?st1') (getArchiveListCacheKey (ent_ID t') zipEncoding) = None"
      by (simp add: kva kv_elapse_Get)
    from ListArchiveFiles_miss_Inr [OF rb this resb] show ?thesis
      by (simp add: decode_count_def)
  qed
  from once same expired other show "decode_count sa = decode_count st + 1 \<and>
     (ent_ID t' = ent_ID t \<longrightarrow>
        ListArchiveFiles m (sa\<lparr>kv := kv_elapse d (kv sa)\<rparr>) uri' entity' zipEncoding
          = (Inr l, sa\<lparr>kv := kv_elapse d (kv sa)\<rparr>)) \<and>
     (ent_ID t' = ent_ID t \<longrightarrow>
        (\<forall>late l' st''. 3600 \<le> late \<longrightarrow>
           ListArchiveFiles m (sa\<lparr>kv := kv_elapse late (kv sa)\<rparr>) uri' entity' zipEncoding
             = (Inr l', st'') \<longrightarrow>
           decode_count st'' = decode_count sa + 1)) \<and>
     (ent_ID t' \<noteq> ent_ID t \<longrightarrow>
      kv_Get (kv st) (getArchiveListCacheKey (ent_ID t') zipEncoding) = None \<longrightarrow>
        (\<forall>l' st''. ListArchiveFiles m (sa\<lparr>kv := kv_elapse d (kv sa)\<rparr>) uri' entity' zipEncoding
                     = (Inr l', st'') \<longrightarrow>
                   decode_count st'' = decode_count sa + 1)) \<and>
     (getArchiveListCacheKey ea ca = getArchiveListCacheKey eb cb \<longleftrightarrow> ea = eb \<and> ca = cb)"
    by (simp add: getArchiveListCacheKey_inj)
qed

text \<open>
  The archive \<^verbatim>\<open>/a\<close> listed twice with the encoding \<^verbatim>\<open>gbk\<close>: 3599 seconds after the first
  call the second is answered from the cache, 3600 seconds after it the decoder runs a
  second time.
\<close>

theorem listing_decoded_once_within_ttl_witness:
  "fst (ListArchiveFiles demo_manager state0 ''/a'' '''' ''gbk'')
     = Inr [\<lparr>af_Name = ''x'', af_Size = 1, af_UpdatedAt = Some 0, af_IsDirectory = False\<rparr>] \<and>
   decode_count (snd (ListArchiveFiles demo_manager state0 ''/a'' '''' ''gbk'')) = 1 \<and>
   ListArchiveFiles demo_manager
      ((snd (ListArchiveFiles demo_manager state0 ''/a'' '''' ''gbk''))
         \<lparr>kv := kv_elapse 3599 (kv (snd (ListArchiveFiles demo_manager state0 ''/a'' '''' ''gbk'')))\<rparr>)
      ''/a'' '''' ''gbk''
     = (Inr [\<lparr>af_Name = ''x'', af_Size = 1, af_UpdatedAt = Some 0, af_IsDirectory = False\<rparr>],
        (snd (ListArchiveFiles demo_manager state0 ''/a'' '''' ''gbk''))
         \<lparr>kv := kv_elapse 3599 (kv (snd (ListArchiveFiles demo_manager state0 ''/a'' '''' ''gbk'')))\<rparr>) \<and>
   decode_count (snd (ListArchiveFiles demo_manager
      ((snd (ListArchiveFiles demo_manager state0 ''/a'' '''' ''gbk''))
         \<lparr>kv := kv_elapse 3600 (kv (snd (ListArchiveFiles demo_manager state0 ''/a'' '''' ''gbk'')))\<rparr>)
      ''/a'' '''' ''gbk'')) = 2"
proof -
  let ?l = "[\<lparr>af_Name = ''x'', af_Size = 1, af_UpdatedAt = Some 0, af_IsDirectory = False\<rparr>]"
  let ?key = "getArchiveListCacheKey (ent_ID \<lparr>ent_ID = 1, ent_Size = 10\<rparr>) ''gbk''"
  obtain sa where sa: "snd (ListArchiveFiles demo_manager state0 ''/a'' '''' ''gbk'') = sa"
    by simp
  have es: "GetEntitySource demo_manager (ent_ID \<lparr>ent_ID = 1, ent_Size = 10\<rparr>)
      = Inr \<lparr>es_Entity = \<lparr>ent_ID = 1, ent_Size = 10\<rparr>, es_Data = [7, 7], es_ReadError = None\<rparr>"
    by (simp add: demo_manager_sel)
  have ext: "f_Ext (info (demo_file ''/'' ''a'' 10 1)) = ''zip'' \<or> f_Ext (info (demo_file ''/'' ''a'' 10 1)) = ''7z''"
    by (simp add: demo_file_sel)
  have run: "fst (ListArchiveFiles demo_manager s ''/a'' '''' ''gbk'') = Inr ?l"
    if "kv_Get (kv s) ?key = None" for s
    unfolding ListArchiveFiles_miss [OF demo_reaches(1) that es ext]
    by (simp add: demo_file_sel demo_decode)
  from run [OF demo_miss] sa have res: "ListArchiveFiles demo_manager state0 ''/a'' '''' ''gbk'' = (Inr ?l, sa)"
    by (metis prod.collapse)
  have kva: "kv sa = kv_Set (kv state0) ?key ?l ArchiveListCacheTTL"
    by (subst ListArchiveFiles_miss_Inr [OF demo_reaches(1) demo_miss res]) simp
  let ?late = "sa\<lparr>kv := kv_elapse 3600 (kv sa)\<rparr>"
  have "kv_Get (kv ?late) ?key = None"
    by (simp add: kva kv_elapse_Get ArchiveListCacheTTL_def)
  from run [OF this] obtain sb where
    late: "ListArchiveFiles demo_manager ?late ''/a'' '''' ''gbk'' = (Inr ?l, sb)"
    by (metis prod.collapse)
  note T = listing_decoded_once_within_ttl
         [where m = demo_manager and uri = "''/a''" and entity = "''''" and zipEncoding = "''gbk''"
            and rt = "demo_file ''/'' ''a'' 10 1" and t = "\<lparr>ent_ID = 1, ent_Size = 10\<rparr>"
            and enc = "Some GBK" and st = state0 and l = ?l and sa = sa and d = 3599
            and uri' = "''/a''" and entity' = "''''" and rt' = "demo_file ''/'' ''a'' 10 1"
            and t' = "\<lparr>ent_ID = 1, ent_Size = 10\<rparr>" and enc' = "Some GBK"]
  from T demo_reaches(1) demo_miss res
  have a: "decode_count sa = decode_count state0 + 1"
    and b: "ListArchiveFiles demo_manager (sa\<lparr>kv := kv_elapse 3599 (kv sa)\<rparr>) ''/a'' '''' ''gbk''
           = (Inr ?l, sa\<lparr>kv := kv_elapse 3599 (kv sa)\<rparr>)"
    and c: "\<forall>late l' st''. 3600 \<le> late \<longrightarrow>
           ListArchiveFiles demo_manager (sa\<lparr>kv := kv_elapse late (kv sa)\<rparr>) ''/a'' '''' ''gbk''
             = (Inr l', st'') \<longrightarrow>
           decode_count st'' = decode_count sa + 1"
    by simp_all
  from c late have "decode_count sb = decode_count sa + 1"
    by blast
  with a b res late show ?thesis
    unfolding sa by (simp add: decode_count_def state0_def)
qed

section \<open>Failed decodes are not cached\<close>

text \<open>
  C9: when the decoder fails on a call that has missed the cache, the call returns the
  decoder's error wrapped and leaves the cache as it was; the same call made again, after
  any time, runs the decoder again and fails the same way.
\<close>

theorem failed_decode_not_cached:
  "reaches_cache m uri entity zipEncoding rt t enc \<longrightarrow>
   kv_Get (kv st) (getArchiveListCacheKey (ent_ID t) zipEncoding) = None \<longrightarrow>
   GetEntitySource m (ent_ID t) = Inr es \<longrightarrow>
   (f_Ext (info rt) = ''zip'' \<or> f_Ext (info rt) = ''7z'') \<longrightarrow>
   (if f_Ext (info rt) = ''zip'' then getZipFileList else get7zFileList) m es (ent_Size t) enc = Inl err \<longrightarrow>
     fst (ListArchiveFiles m st uri entity zipEncoding) = Inl (Wrapped ''failed to read file list'' err) \<and>
     kv (snd (ListArchiveFiles m st uri entity zipEncoding)) = kv st \<and>
     decode_count (snd (ListArchiveFiles m st uri entity zipEncoding)) = decode_count st + 1 \<and>
     (\<forall>d. fst (ListArchiveFiles m
                  ((snd (ListArchiveFiles m st uri entity zipEncoding))
                     \<lparr>kv := kv_elapse d (kv (snd (ListArchiveFiles m st uri entity zipEncoding)))\<rparr>)
                  uri entity zipEncoding)
             = Inl (Wrapped ''failed to read file list'' err) \<and>
          decode_count (snd (ListArchiveFiles m
                  ((snd (ListArchiveFiles m st uri entity zipEncoding))
                     \<lparr>kv := kv_elapse d (kv (snd (ListArchiveFiles m st uri entity zipEncoding)))\<rparr>)
                  uri entity zipEncoding))
             = decode_count st + 2)"
proof (intro impI)
  assume r: "reaches_cache m uri entity zipEncoding rt t enc"
    and miss: "kv_Get (kv st) (getArchiveListCacheKey (ent_ID t) zipEncoding) = None"
    and es: "GetEntitySource m (ent_ID t) = Inr es"
    and ext: "f_Ext (info rt) = ''zip'' \<or> f_Ext (info rt) = ''7z''"
    and dec: "(if f_Ext (info rt) = ''zip'' then getZipFileList else get7zFileList) m es (ent_Size t) enc = Inl err"
  let ?ev = "[EvOpen (ent_ID t), EvDecode (f_Ext (info rt)) (ent_ID t), EvClose (ent_ID t)]"
  have first: "ListArchiveFiles m s uri entity zipEncoding =
      (Inl (Wrapped ''failed to read file list'' err), s\<lparr>events := events s @ ?ev\<rparr>)"
    if "kv_Get (kv s) (getArchiveListCacheKey (ent_ID t) zipEncoding) = None" for s
    unfolding ListArchiveFiles_miss [OF r that es ext] dec by simp
  have again: "kv_Get (kv ((st\<lparr>events := events st @ ?ev\<rparr>)\<lparr>kv := kv_elapse d (kv st)\<rparr>))
      (getArchiveListCacheKey (ent_ID t) zipEncoding) = None" for d
    using miss by (simp add: kv_elapse_Get)
  show "fst (ListArchiveFiles m st uri entity zipEncoding) = Inl (Wrapped ''failed to read file list'' err) \<and>
     kv (snd (ListArchiveFiles m st uri entity zipEncoding)) = kv st \<and>
     decode_count (snd (ListArchiveFiles m st uri entity zipEncoding)) = decode_count st + 1 \<and>
     (\<forall>d. fst (ListArchiveFiles m
                  ((snd (ListArchiveFiles m st uri entity zipEncoding))
                     \<lparr>kv := kv_elapse d (kv (snd (ListArchiveFiles m st uri entity zipEncoding)))\<rparr>)
                  uri entity zipEncoding)
             = Inl (Wrapped ''failed to read file list'' err) \<and>
          decode_count (snd (ListArchiveFiles m
                  ((snd (ListArchiveFiles m st uri entity zipEncoding))
                     \<lparr>kv := kv_elapse d (kv (snd (ListArchiveFiles m st uri entity zipEncoding)))\<rparr>)
                  uri entity zipEncoding))
             = decode_count st + 2)"
    unfolding first [OF miss]
    by (simp add: first [OF again] decode_count_def)
qed

theorem failed_decode_not_cached_witness:
  "fst (ListArchiveFiles demo_manager state0 ''/z'' '''' '''')
     = Inl (Wrapped ''failed to read file list''
              (Wrapped ''failed to create zip reader'' (OtherError ''zip: not a valid zip file''))) \<and>
   kv (snd (ListArchiveFiles demo_manager state0 ''/z'' '''' '''')) = kv state0 \<and>
   decode_count (snd (ListArchiveFiles demo_manager
        ((snd (ListArchiveFiles demo_manager state0 ''/z'' '''' ''''))
           \<lparr>kv := kv_elapse 100 (kv (snd (ListArchiveFiles demo_manager state0 ''/z'' '''' '''')))\<rparr>)
        ''/z'' '''' '''')) = 2"
proof -
  have es: "GetEntitySource demo_manager (ent_ID \<lparr>ent_ID = 9, ent_Size = 10\<rparr>)
      = Inr \<lparr>es_Entity = \<lparr>ent_ID = 9, ent_Size = 10\<rparr>, es_Data = [7, 7], es_ReadError = None\<rparr>"
    by (simp add: demo_manager_sel)
  have ext: "f_Ext (info (demo_file ''/'' ''z'' 10 9)) = ''zip'' \<or> f_Ext (info (demo_file ''/'' ''z'' 10 9)) = ''7z''"
    by (simp add: demo_file_sel)
  have dec: "(if f_Ext (info (demo_file ''/'' ''z'' 10 9)) = ''zip'' then getZipFileList else get7zFileList)
      demo_manager \<lparr>es_Entity = \<lparr>ent_ID = 9, ent_Size = 10\<rparr>, es_Data = [7, 7], es_ReadError = None\<rparr>
      (ent_Size \<lparr>ent_ID = 9, ent_Size = 10\<rparr>) None
      = Inl (Wrapped ''failed to create zip reader'' (OtherError ''zip: not a valid zip file''))"
    by (simp add: demo_file_sel demo_decode)
  note T = failed_decode_not_cached
         [where m = demo_manager and uri = "''/z''" and entity = "''''" and zipEncoding = "''''"
            and rt = "demo_file ''/'' ''z'' 10 9" and t = "\<lparr>ent_ID = 9, ent_Size = 10\<rparr>"
            and enc = None and st = state0
            and es = "\<lparr>es_Entity = \<lparr>ent_ID = 9, ent_Size = 10\<rparr>, es_Data = [7, 7], es_ReadError = None\<rparr>"
            and err = "Wrapped ''failed to create zip reader'' (OtherError ''zip: not a valid zip file'')",
          rule_format, OF demo_reaches(2) demo_miss es ext dec]
  have dc: "decode_count state0 = 0"
    by (simp add: decode_count_def state0_def)
  from T have a: "fst (ListArchiveFiles demo_manager state0 ''/z'' '''' '''')
       = Inl (Wrapped ''failed to read file list''
                (Wrapped ''failed to create zip reader'' (OtherError ''zip: not a valid zip file'')))"
    by (rule conjunct1)
  from T have b: "kv (snd (ListArchiveFiles demo_manager state0 ''/z'' '''' '''')) = kv state0"
    by (elim conjE)
  from T have "\<forall>d. fst (ListArchiveFiles demo_manager
                  ((snd (ListArchiveFiles demo_manager state0 ''/z'' '''' ''''))
                     \<lparr>kv := kv_elapse d (kv (snd (ListArchiveFiles demo_manager state0 ''/z'' '''' '''')))\<rparr>)
                  ''/z'' '''' '''')
             = Inl (Wrapped ''failed to read file list''
                (Wrapped ''failed to create zip reader'' (OtherError ''zip: not a valid zip file''))) \<and>
          decode_count (snd (ListArchiveFiles demo_manager
                  ((snd (ListArchiveFiles demo_manager state0 ''/z'' '''' ''''))
                     \<lparr>kv := kv_elapse d (kv (snd (ListArchiveFiles demo_manager state0 ''/z'' '''' '''')))\<rparr>)
                  ''/z'' '''' ''''))
             = decode_count state0 + 2"
    by (elim conjE)
  then have c: "decode_count (snd (ListArchiveFiles demo_manager
        ((snd (ListArchiveFiles demo_manager state0 ''/z'' '''' ''''))
           \<lparr>kv := kv_elapse 100 (kv (snd (ListArchiveFiles demo_manager state0 ''/z'' '''' '''')))\<rparr>)
        ''/z'' '''' '''')) = decode_count state0 + 2"
    by (elim allE conjE)
  from a b c dc show ?thesis
    by simp
qed

end
